theory Spec2Isabelle
  imports Main "HOL-Library.Multiset"
begin

section \<open>Data model (Prisma models used by ChatService, QueueService and the socket handlers)\<close>

text \<open>
  Prisma ids are opaque strings generated by the database; they are modelled as natural
  numbers drawn from a counter. Dates are milliseconds since the epoch, as
  \<^verbatim>\<open>Date.getTime()\<close> gives them.
\<close>

type_synonym ident = nat
type_synonym time = int

datatype ChatStatus = Waiting | Active | Resolved | Abandoned
datatype SenderType = Customer | Cs | System
datatype MessageType = MText | MImage | MFile | MSystem
datatype CsState = Online | Offline | Busy
datatype UserRole = RoleAdmin | RoleCs

record ChatSession =
  sid :: ident
  customerName :: "string option"
  customerEmail :: "string option"
  customerToken :: string
  status :: ChatStatus
  assignedCsId :: "ident option"
  sessionCreatedAt :: time
  assignedAt :: "time option"
  resolvedAt :: "time option"
  rating :: "int option"
  feedback :: "string option"

record Message =
  mid :: ident
  sessionId :: ident
  senderType :: SenderType
  senderId :: "ident option"
  content :: string
  messageType :: MessageType
  isRead :: bool
  createdAt :: time

record CsStatus =
  userId :: ident
  csState :: CsState
  maxChats :: int
  currentChats :: int
  lastActiveAt :: time

record User =
  uid :: ident
  userName :: string
  role :: UserRole
  isActive :: bool
  avatarUrl :: "string option"

text \<open>
  The database tables in row order, the id counter, and the wall clock. Every clock read
  of the source (\<^verbatim>\<open>new Date()\<close>, \<^verbatim>\<open>Date.now()\<close>, a column default
  \<^verbatim>\<open>now()\<close>) first lets the next delay of \<open>ticks\<close> elapse, so any non-decreasing
  sequence of readings can be produced. \<open>serverReady\<close> is NotificationService's
  \<^verbatim>\<open>serverInstance !== null\<close>. \<open>tieOrder\<close> stands for what the source leaves to the
  database: the order in which rows with equal sort keys come back from an
  \<^verbatim>\<open>orderBy\<close>. Messages whose ids it lists come back in that order and before the
  unlisted ones, which come back in row order.
\<close>

record Store =
  sessions :: "ChatSession list"
  messagesTbl :: "Message list"
  csStatuses :: "CsStatus list"
  users :: "User list"
  activityLog :: "(ident \<times> string \<times> ident) list"
  nextId :: ident
  clock :: time
  ticks :: "nat list"
  serverReady :: bool
  tieOrder :: "ident list"

datatype PrismaError = RecordNotFound | UniqueConstraint

definition now :: "Store \<Rightarrow> time \<times> Store" where
  "now st = (case ticks st of
       [] \<Rightarrow> (clock st, st)
     | d # ds \<Rightarrow> (clock st + int d, st\<lparr>clock := clock st + int d, ticks := ds\<rparr>))"

subsection \<open>Prisma client calls\<close>

definition chatSessionFindUnique :: "Store \<Rightarrow> ident \<Rightarrow> ChatSession option" where
  "chatSessionFindUnique st i = find (\<lambda>s. sid s = i) (sessions st)"

definition chatSessionFindByToken :: "Store \<Rightarrow> string \<Rightarrow> ChatSession option" where
  "chatSessionFindByToken st tok = find (\<lambda>s. customerToken s = tok) (sessions st)"

text \<open>\<^verbatim>\<open>update\<close> throws when no row matches the unique key.\<close>

definition chatSessionUpdate ::
  "Store \<Rightarrow> ident \<Rightarrow> (ChatSession \<Rightarrow> ChatSession) \<Rightarrow> Store \<times> (PrismaError + ChatSession)" where
  "chatSessionUpdate st i f = (case chatSessionFindUnique st i of
       None \<Rightarrow> (st, Inl RecordNotFound)
     | Some s \<Rightarrow> (st\<lparr>sessions := map (\<lambda>x. if sid x = i then f x else x) (sessions st)\<rparr>, Inr (f s)))"

definition csStatusFindUnique :: "Store \<Rightarrow> ident \<Rightarrow> CsStatus option" where
  "csStatusFindUnique st u = find (\<lambda>c. userId c = u) (csStatuses st)"

definition csStatusUpdate ::
  "Store \<Rightarrow> ident \<Rightarrow> (CsStatus \<Rightarrow> CsStatus) \<Rightarrow> Store \<times> (PrismaError + CsStatus)" where
  "csStatusUpdate st u f = (case csStatusFindUnique st u of
       None \<Rightarrow> (st, Inl RecordNotFound)
     | Some c \<Rightarrow> (st\<lparr>csStatuses := map (\<lambda>x. if userId x = u then f x else x) (csStatuses st)\<rparr>, Inr (f c)))"

definition userFindUnique :: "Store \<Rightarrow> ident \<Rightarrow> User option" where
  "userFindUnique st u = find (\<lambda>x. uid x = u) (users st)"

text \<open>\<^verbatim>\<open>message.create\<close>: the id and \<open>createdAt\<close> are column defaults, \<open>isRead\<close> is false.\<close>

definition messageCreate ::
  "Store \<Rightarrow> ident \<Rightarrow> SenderType \<Rightarrow> ident option \<Rightarrow> string \<Rightarrow> MessageType \<Rightarrow> Store \<times> Message" where
  "messageCreate st sess sender senderIdOpt body mtype =
     (let (t, st1) = now st;
          m = \<lparr>mid = nextId st1, sessionId = sess, senderType = sender, senderId = senderIdOpt,
               content = body, messageType = mtype, isRead = False, createdAt = t\<rparr>
      in (st1\<lparr>messagesTbl := messagesTbl st1 @ [m], nextId := Suc (nextId st1)\<rparr>, m))"

text \<open>
  A Prisma call that throws leaves the rows already written in place (the source opens no
  transaction); \<open>andThen\<close> continues after a call that returned and stops at one that threw.
\<close>

definition andThen ::
  "Store \<times> (PrismaError + 'a) \<Rightarrow> (Store \<Rightarrow> 'a \<Rightarrow> Store \<times> (PrismaError + 'b)) \<Rightarrow> Store \<times> (PrismaError + 'b)" where
  "andThen r k = (case r of (st, Inl e) \<Rightarrow> (st, Inl e) | (st, Inr x) \<Rightarrow> k st x)"

section \<open>ChatService\<close>



text \<open>The \<^verbatim>\<open>select\<close> of a message inside \<^verbatim>\<open>ChatSessionWithMessages\<close>: every column but the session id.\<close>

datatype MessageView = MessageView ident string SenderType "ident option" MessageType bool time

definition selectMessage :: "Message \<Rightarrow> MessageView" where
  "selectMessage m = MessageView (mid m) (content m) (senderType m) (senderId m) (messageType m) (isRead m) (createdAt m)"

datatype CsInfo = CsInfo ident string "string option"

definition selectCs :: "User \<Rightarrow> CsInfo" where
  "selectCs u = CsInfo (uid u) (userName u) (avatarUrl u)"

record ChatSessionWithMessages =
  session :: ChatSession
  assignedCs :: "CsInfo option"
  messages :: "MessageView list"

text \<open>
  \<^verbatim>\<open>orderBy: { createdAt: "asc" }\<close> over the rows of one session. The source gives no
  second sort key, so rows with equal \<open>createdAt\<close> come back as the database pleases:
  here by their rank in \<open>tieOrder\<close> (\<open>sort_key\<close> is stable, so the second sort keeps
  the order of the first among equal \<open>createdAt\<close>).
\<close>

definition tieRank :: "Store \<Rightarrow> Message \<Rightarrow> nat" where
  "tieRank st m = length (takeWhile (\<lambda>i. i \<noteq> mid m) (tieOrder st))"

definition sessionMessages :: "Store \<Rightarrow> ident \<Rightarrow> Message list" where
  "sessionMessages st i =
     sort_key createdAt (sort_key (tieRank st) (filter (\<lambda>m. sessionId m = i) (messagesTbl st)))"

definition includeAssignedCs :: "Store \<Rightarrow> ChatSession \<Rightarrow> CsInfo option" where
  "includeAssignedCs st s = (case assignedCsId s of
       None \<Rightarrow> None
     | Some a \<Rightarrow> map_option selectCs (userFindUnique st a))"

definition withMessages :: "Store \<Rightarrow> ChatSession \<Rightarrow> ChatSessionWithMessages" where
  "withMessages st s = \<lparr>session = s, assignedCs = includeAssignedCs st s,
     messages = map selectMessage (sessionMessages st (sid s))\<rparr>"

definition getSessionByToken :: "Store \<Rightarrow> string \<Rightarrow> ChatSessionWithMessages option" where
  "getSessionByToken st tok = map_option (withMessages st) (chatSessionFindByToken st tok)"

definition getSessionById :: "Store \<Rightarrow> ident \<Rightarrow> ChatSessionWithMessages option" where
  "getSessionById st i = map_option (withMessages st) (chatSessionFindUnique st i)"


text \<open>\<^verbatim>\<open>getWaitingChats\<close>: the queue, oldest first.\<close>

definition getWaitingChats :: "Store \<Rightarrow> ChatSession list" where
  "getWaitingChats st = sort_key sessionCreatedAt (filter (\<lambda>s. status s = Waiting) (sessions st))"

definition joinedText :: "CsInfo option \<Rightarrow> string" where
  "joinedText c = (case c of
       None \<Rightarrow> ''Customer Service''
     | Some (CsInfo _ n _) \<Rightarrow> (if n = [] then ''Customer Service'' else n)) @ '' has joined the chat''"

text \<open>\<^verbatim>\<open>assignChat(sessionId, csId)\<close>: three writes, one after the other.\<close>

definition assignChat ::
  "Store \<Rightarrow> ident \<Rightarrow> ident \<Rightarrow> Store \<times> (PrismaError + ChatSession \<times> CsInfo option)" where
  "assignChat st sessId csId =
     (let (t, st0) = now st in
      andThen (chatSessionUpdate st0 sessId
                 (\<lambda>s. s\<lparr>assignedCsId := Some csId, status := Active, assignedAt := Some t\<rparr>))
        (\<lambda>st1 updated.
           andThen (csStatusUpdate st1 csId (\<lambda>c. c\<lparr>currentChats := currentChats c + 1\<rparr>))
             (\<lambda>st2 _.
                (let cs = includeAssignedCs st1 updated;
                     (st3, m) = messageCreate st2 sessId System None (joinedText cs) MSystem
                 in (st3, Inr (updated, cs))))))"

text \<open>\<^verbatim>\<open>resolveChat(sessionId, csId)\<close>; \<^verbatim>\<open>null\<close> is \<open>Inr None\<close>.\<close>

definition resolveChat ::
  "Store \<Rightarrow> ident \<Rightarrow> ident \<Rightarrow> Store \<times> (PrismaError + ChatSession option)" where
  "resolveChat st sessId csId = (case chatSessionFindUnique st sessId of
       None \<Rightarrow> (st, Inr None)
     | Some found \<Rightarrow>
         if assignedCsId found \<noteq> Some csId then (st, Inr None)
         else
           (let (t, st0) = now st in
            andThen (chatSessionUpdate st0 sessId (\<lambda>s. s\<lparr>status := Resolved, resolvedAt := Some t\<rparr>))
              (\<lambda>st1 updated.
                 andThen (csStatusUpdate st1 csId (\<lambda>c. c\<lparr>currentChats := currentChats c - 1\<rparr>))
                   (\<lambda>st2 _.
                      (let (st3, m) = messageCreate st2 sessId System None ''Chat has been resolved'' MSystem;
                           st4 = st3\<lparr>activityLog := activityLog st3 @ [(csId, ''chat_resolved'', sessId)]\<rparr>
                       in (st4, Inr (Some updated)))))))"


text \<open>\<^verbatim>\<open>endChat(sessionId)\<close>: the customer leaves.\<close>

definition endChat :: "Store \<Rightarrow> ident \<Rightarrow> Store \<times> (PrismaError + ChatSession option)" where
  "endChat st sessId = (case chatSessionFindUnique st sessId of
       None \<Rightarrow> (st, Inr None)
     | Some found \<Rightarrow>
         if status found = Waiting \<or> status found = Active then
           (let (t, st0) = now st in
            andThen (chatSessionUpdate st0 sessId (\<lambda>s. s\<lparr>status := Abandoned, resolvedAt := Some t\<rparr>))
              (\<lambda>st1 updated.
                 andThen (case assignedCsId found of
                            None \<Rightarrow> (st1, Inr None)
                          | Some a \<Rightarrow>
                              andThen (csStatusUpdate st1 a (\<lambda>c. c\<lparr>currentChats := currentChats c - 1\<rparr>))
                                (\<lambda>st2 c. (st2, Inr (Some c))))
                   (\<lambda>st2 _.
                      (let (st3, m) = messageCreate st2 sessId System None ''Customer has left the chat'' MSystem
                       in (st3, Inr (Some updated))))))
         else (st, Inr (Some found)))"


section \<open>Outbound frames and topics (events, rooms, NotificationService)\<close>

datatype Topic = TSession ident | TCs ident | TQueue | TAdminStats | TBroadcast

text \<open>The \<^verbatim>\<open>data\<close> objects of the frames sent by the functions below.\<close>

datatype FrameData =
    ErrorData string string
  | SessionIdData ident
  | ChatAssignedData ident CsInfo
  | ChatStartedData ident string
  | QueuePositionData ident nat
  | EndedData ident string
  | QueueUpdateData string ident
  | NewChatData ident "string option"
  | ChatResolvedStatsData ident ident
  | SessionRestoredData ident ChatStatus "CsInfo option" "MessageView list"
  | ChatAcceptedData ident "string option" "string option" "MessageView list" time

text \<open>
  \<^verbatim>\<open>createMessage(event, data)\<close>; the envelope's timestamp and request id play no part
  in what follows and are left out.
\<close>

datatype Frame = Frame string FrameData

definition createErrorMessage :: "string \<Rightarrow> string \<Rightarrow> Frame" where
  "createErrorMessage code msg = Frame ''system:error'' (ErrorData code msg)"

text \<open>
  What a handler does to the socket layer, in order: \<open>Send\<close> is \<^verbatim>\<open>ws.send\<close> on the
  handler's own connection, \<open>Publish\<close> is \<^verbatim>\<open>serverInstance.publish\<close>, \<open>Subscribe\<close> and
  \<open>Unsubscribe\<close> act on the handler's own connection, \<open>SubscribeUser\<close> on every tracked
  connection of a user (\<^verbatim>\<open>subscribeCsToSessionByUserId\<close>).
\<close>

datatype Out =
    Send Frame
  | Publish Topic Frame
  | Subscribe Topic
  | Unsubscribe Topic
  | SubscribeUser ident Topic

definition publishToTopic :: "Store \<Rightarrow> Topic \<Rightarrow> string \<Rightarrow> FrameData \<Rightarrow> Out list" where
  "publishToTopic st topic ev d = (if serverReady st then [Publish topic (Frame ev d)] else [])"

definition notifyCustomer :: "Store \<Rightarrow> ident \<Rightarrow> string \<Rightarrow> FrameData \<Rightarrow> Out list" where
  "notifyCustomer st sessId ev d = publishToTopic st (TSession sessId) ev d"

definition notifyCS :: "Store \<Rightarrow> ident \<Rightarrow> string \<Rightarrow> FrameData \<Rightarrow> Out list" where
  "notifyCS st u ev d = publishToTopic st (TCs u) ev d"

definition notifyQueue :: "Store \<Rightarrow> string \<Rightarrow> FrameData \<Rightarrow> Out list" where
  "notifyQueue st ev d = publishToTopic st TQueue ev d"

definition notifyAdmins :: "Store \<Rightarrow> string \<Rightarrow> FrameData \<Rightarrow> Out list" where
  "notifyAdmins st ev d = publishToTopic st TAdminStats ev d"

definition notifyChatAssigned :: "Store \<Rightarrow> ident \<Rightarrow> ident \<Rightarrow> string \<Rightarrow> string option \<Rightarrow> Out list" where
  "notifyChatAssigned st sessId csId csName csAvatar =
     notifyCustomer st sessId ''chat:assigned'' (ChatAssignedData sessId (CsInfo csId csName csAvatar))
     @ notifyCS st csId ''chat:new_assigned'' (SessionIdData sessId)
     @ notifyQueue st ''queue:update'' (QueueUpdateData ''assigned'' sessId)"

definition notifyChatResolved :: "Store \<Rightarrow> ident \<Rightarrow> ident \<Rightarrow> Out list" where
  "notifyChatResolved st sessId csId =
     notifyCustomer st sessId ''chat:ended'' (EndedData sessId ''resolved'')
     @ notifyCS st csId ''chat:resolved'' (SessionIdData sessId)
     @ notifyAdmins st ''stats:chat_resolved'' (ChatResolvedStatsData sessId csId)"

definition notifyCustomerLeft :: "Store \<Rightarrow> ident \<Rightarrow> ident option \<Rightarrow> Out list" where
  "notifyCustomerLeft st sessId csIdOpt =
     (case csIdOpt of
        None \<Rightarrow> []
      | Some a \<Rightarrow> notifyCS st a ''chat:customer_left'' (SessionIdData sessId))
     @ notifyQueue st ''queue:update'' (QueueUpdateData ''customer_left'' sessId)"




definition frameEvent :: "Frame \<Rightarrow> string" where
  "frameEvent f = (case f of Frame ev _ \<Rightarrow> ev)"

section \<open>QueueService\<close>

record Config =
  autoAssignEnabled :: bool
  chatIdleTimeout :: int

record QueueItem =
  qSessionId :: ident
  qCustomerName :: "string option"
  qCustomerEmail :: "string option"
  qPosition :: nat
  qWaitTime :: int
  qCreatedAt :: time
  qLastMessage :: "string option"

definition lastCustomerMessage :: "Store \<Rightarrow> ident \<Rightarrow> string option" where
  "lastCustomerMessage st i =
     (case rev (sort_key createdAt (filter (\<lambda>m. sessionId m = i \<and> senderType m = Customer) (messagesTbl st))) of
        [] \<Rightarrow> None
      | m # _ \<Rightarrow> Some (content m))"

text \<open>
  \<^verbatim>\<open>getQueue\<close>. \<open>waitTime\<close> is \<^verbatim>\<open>Math.floor((now - createdAt) / 1000)\<close>, computed by the
  source in doubles and here in integers; nothing below depends on it.
\<close>

definition getQueue :: "Store \<Rightarrow> Store \<times> QueueItem list" where
  "getQueue st =
     (let waitingChats = getWaitingChats st;
          (t, st1) = now st
      in (st1, map (\<lambda>(chat, index).
                      \<lparr>qSessionId = sid chat, qCustomerName = customerName chat,
                       qCustomerEmail = customerEmail chat, qPosition = index + 1,
                       qWaitTime = (t - sessionCreatedAt chat) div 1000,
                       qCreatedAt = sessionCreatedAt chat,
                       qLastMessage = lastCustomerMessage st (sid chat)\<rparr>)
                   (zip waitingChats [0 ..< length waitingChats])))"


text \<open>
  The query of \<^verbatim>\<open>autoAssignChat\<close>: active users of role cs whose status row is online,
  with that row, ordered by its \<open>currentChats\<close> ascending and by nothing else.
\<close>

definition availableCS :: "Store \<Rightarrow> (User \<times> CsStatus) list" where
  "availableCS st = sort_key (\<lambda>p. currentChats (snd p))
     (List.map_filter
        (\<lambda>u. case csStatusFindUnique st (uid u) of
                None \<Rightarrow> None
              | Some c \<Rightarrow> if role u = RoleCs \<and> isActive u \<and> csState c = Online then Some (u, c) else None)
        (users st))"

definition csWithCapacity :: "Store \<Rightarrow> (User \<times> CsStatus) list" where
  "csWithCapacity st = filter (\<lambda>p. currentChats (snd p) < maxChats (snd p)) (availableCS st)"

text \<open>\<^verbatim>\<open>autoAssignChat(sessionId)\<close>: \<^verbatim>\<open>null\<close> is \<open>Inr None\<close>.\<close>

definition autoAssignChat ::
  "Config \<Rightarrow> Store \<Rightarrow> ident \<Rightarrow> (Store \<times> (PrismaError + (ChatSession \<times> CsInfo) option)) \<times> Out list" where
  "autoAssignChat cfg st sessId =
     (if \<not> autoAssignEnabled cfg then ((st, Inr None), [])
      else (case csWithCapacity st of
          [] \<Rightarrow> ((st, Inr None), [])
        | selectedCS # _ \<Rightarrow>
            (case assignChat st sessId (uid (fst selectedCS)) of
               (st1, Inl e) \<Rightarrow> ((st1, Inl e), [])
             | (st1, Inr (sess, _)) \<Rightarrow>
                 ((st1, Inr (Some (sess, selectCs (fst selectedCS)))),
                  SubscribeUser (uid (fst selectedCS)) (TSession sessId)
                  # notifyChatAssigned st1 sessId (uid (fst selectedCS)) (userName (fst selectedCS))
                      (avatarUrl (fst selectedCS))))))"

text \<open>The loop of \<^verbatim>\<open>processQueue\<close>: stop at the first chat that finds no agent.\<close>

fun processItems ::
  "Config \<Rightarrow> QueueItem list \<Rightarrow> Store \<Rightarrow> nat \<Rightarrow> (Store \<times> (PrismaError + nat)) \<times> Out list" where
  "processItems cfg [] st processed = ((st, Inr processed), [])"
| "processItems cfg (item # rest) st processed =
     (case autoAssignChat cfg st (qSessionId item) of
        ((st1, Inl e), outs) \<Rightarrow> ((st1, Inl e), outs)
      | ((st1, Inr None), outs) \<Rightarrow> ((st1, Inr processed), outs)
      | ((st1, Inr (Some _)), outs) \<Rightarrow>
          (case processItems cfg rest st1 (Suc processed) of (r, outs2) \<Rightarrow> (r, outs @ outs2)))"

definition processQueue :: "Config \<Rightarrow> Store \<Rightarrow> (Store \<times> (PrismaError + nat)) \<times> Out list" where
  "processQueue cfg st =
     (if \<not> autoAssignEnabled cfg then ((st, Inr 0), [])
      else (let (st1, queue) = getQueue st in processItems cfg queue st1 0))"

text \<open>
  \<^verbatim>\<open>checkIdleChats\<close>. The query keeps the waiting and active sessions all of whose
  messages are older than the threshold, each with its latest message; the loop then
  works on that snapshot.
\<close>

definition latestMessage :: "Store \<Rightarrow> ident \<Rightarrow> Message option" where
  "latestMessage st i = (case rev (sessionMessages st i) of [] \<Rightarrow> None | m # _ \<Rightarrow> Some m)"

definition idleChats :: "Store \<Rightarrow> time \<Rightarrow> (ChatSession \<times> Message option) list" where
  "idleChats st idleThreshold =
     map (\<lambda>s. (s, latestMessage st (sid s)))
       (filter (\<lambda>s. (status s = Waiting \<or> status s = Active)
                   \<and> list_all (\<lambda>m. createdAt m < idleThreshold)
                        (filter (\<lambda>m. sessionId m = sid s) (messagesTbl st)))
          (sessions st))"

fun abandonIdle ::
  "time \<Rightarrow> (ChatSession \<times> Message option) list \<Rightarrow> Store \<Rightarrow> ident list \<Rightarrow> Store \<times> (PrismaError + ident list)" where
  "abandonIdle idleThreshold [] st abandonedIds = (st, Inr abandonedIds)"
| "abandonIdle idleThreshold ((chat, lastMessage) # rest) st abandonedIds =
     (if (case lastMessage of None \<Rightarrow> True | Some m \<Rightarrow> createdAt m < idleThreshold) then
        (let (t, st0) = now st in
         andThen (chatSessionUpdate st0 (sid chat) (\<lambda>s. s\<lparr>status := Abandoned, resolvedAt := Some t\<rparr>))
           (\<lambda>st1 _.
              (let st2 = (case assignedCsId chat of
                            None \<Rightarrow> st1
                          | Some a \<Rightarrow> fst (csStatusUpdate st1 a (\<lambda>c. c\<lparr>currentChats := currentChats c - 1\<rparr>)));
                   (st3, m) = messageCreate st2 (sid chat) System None
                                ''Chat ditutup karena tidak ada aktivitas'' MSystem
               in abandonIdle idleThreshold rest st3 (abandonedIds @ [sid chat]))))
      else abandonIdle idleThreshold rest st abandonedIds)"

definition checkIdleChats :: "Config \<Rightarrow> Store \<Rightarrow> Store \<times> (PrismaError + nat \<times> ident list)" where
  "checkIdleChats cfg st =
     (let (t, st0) = now st;
          idleThreshold = t - chatIdleTimeout cfg * 1000
      in andThen (abandonIdle idleThreshold (idleChats st0 idleThreshold) st0 [])
           (\<lambda>st1 ids. (st1, Inr (length ids, ids))))"

section \<open>Socket handlers\<close>

datatype WsRole = WsCustomer | WsCs | WsAdmin

record WsData =
  wsRole :: WsRole
  wsUserId :: "ident option"
  wsSessionId :: "ident option"
  wsCustomerToken :: "string option"

definition serverError :: "string \<Rightarrow> Out" where
  "serverError msg = Send (createErrorMessage ''SERVER_ERROR'' msg)"

subsection \<open>customer.ts\<close>


text \<open>
  \<^verbatim>\<open>handleCustomerEndChat\<close>; \<open>dataSessionId\<close> is \<^verbatim>\<open>data.sessionId\<close>, \<open>None\<close> when it is
  missing. \<^verbatim>\<open>getSessionByToken\<close> throws on an undefined token.
\<close>

definition handleCustomerEndChat :: "Store \<Rightarrow> WsData \<Rightarrow> ident option \<Rightarrow> Store \<times> Out list" where
  "handleCustomerEndChat st ws dataSessionId =
     (case dataSessionId of
        None \<Rightarrow> (st, [Send (createErrorMessage ''INVALID_SESSION'' ''Invalid session'')])
      | Some sessId \<Rightarrow>
          if wsSessionId ws \<noteq> Some sessId then
            (st, [Send (createErrorMessage ''INVALID_SESSION'' ''Invalid session'')])
          else (case wsCustomerToken ws of
              None \<Rightarrow> (st, [serverError ''Server error occurred''])
            | Some ctok \<Rightarrow>
                (let csId = (case getSessionByToken st ctok of
                               None \<Rightarrow> None
                             | Some s \<Rightarrow> assignedCsId (session s))
                 in case endChat st sessId of
                      (st1, Inl e) \<Rightarrow> (st1, [serverError ''Server error occurred''])
                    | (st1, Inr None) \<Rightarrow>
                        (st1, [Send (createErrorMessage ''END_FAILED'' ''Failed to end chat'')])
                    | (st1, Inr (Some r)) \<Rightarrow>
                        (st1, (case csId of None \<Rightarrow> [] | Some a \<Rightarrow> notifyCustomerLeft st1 sessId (Some a))
                              @ [Send (Frame ''chat:ended'' (EndedData sessId ''customer_left''))]))))"


subsection \<open>cs.ts\<close>

definition nameOrCS :: "User option \<Rightarrow> string" where
  "nameOrCS u = (case u of None \<Rightarrow> ''CS'' | Some x \<Rightarrow> if userName x = [] then ''CS'' else userName x)"

text \<open>\<^verbatim>\<open>handleCsAcceptChat\<close>: the guards in the order of the source, then \<^verbatim>\<open>assignChat\<close>.\<close>

definition handleCsAcceptChat :: "Store \<Rightarrow> WsData \<Rightarrow> ident \<Rightarrow> Store \<times> Out list" where
  "handleCsAcceptChat st ws sessId =
     (case wsUserId ws of
        None \<Rightarrow> (st, [Send (createErrorMessage ''UNAUTHORIZED'' ''Tidak terautentikasi'')])
      | Some u \<Rightarrow>
          (case csStatusFindUnique st u of
             None \<Rightarrow> (st, [Send (createErrorMessage ''NOT_ONLINE'' ''Anda harus online untuk menerima chat'')])
           | Some csStatus \<Rightarrow>
               if csState csStatus \<noteq> Online then
                 (st, [Send (createErrorMessage ''NOT_ONLINE'' ''Anda harus online untuk menerima chat'')])
               else if currentChats csStatus \<ge> maxChats csStatus then
                 (st, [Send (createErrorMessage ''AT_CAPACITY'' ''Anda sudah mencapai batas chat maksimal'')])
               else (case getSessionById st sessId of
                   None \<Rightarrow> (st, [Send (createErrorMessage ''SESSION_NOT_FOUND'' ''Chat tidak ditemukan'')])
                 | Some s \<Rightarrow>
                     if status (session s) \<noteq> Waiting then
                       (st, [Send (createErrorMessage ''ALREADY_ASSIGNED'' ''Chat sudah ditangani CS lain'')])
                     else (case assignChat st sessId u of
                         (st1, Inl e) \<Rightarrow> (st1, [serverError ''Terjadi kesalahan server''])
                       | (st1, Inr assigned) \<Rightarrow>
                           (let user = userFindUnique st1 u
                            in (st1, Subscribe (TSession sessId)
                                     # notifyChatAssigned st1 sessId u (nameOrCS user)
                                         (case user of None \<Rightarrow> None | Some x \<Rightarrow> avatarUrl x)
                                     @ [Send (Frame ''chat:accepted''
                                          (ChatAcceptedData sessId (customerName (session s))
                                             (customerEmail (session s)) (messages s)
                                             (sessionCreatedAt (session s))))]))))))"

text \<open>\<^verbatim>\<open>handleCsResolveChat\<close>.\<close>

definition handleCsResolveChat :: "Config \<Rightarrow> Store \<Rightarrow> WsData \<Rightarrow> ident \<Rightarrow> Store \<times> Out list" where
  "handleCsResolveChat cfg st ws sessId =
     (case wsUserId ws of
        None \<Rightarrow> (st, [Send (createErrorMessage ''UNAUTHORIZED'' ''Tidak terautentikasi'')])
      | Some u \<Rightarrow>
          (case resolveChat st sessId u of
             (st1, Inl e) \<Rightarrow> (st1, [serverError ''Terjadi kesalahan server''])
           | (st1, Inr None) \<Rightarrow>
               (st1, [Send (createErrorMessage ''RESOLVE_FAILED''
                              ''Gagal menyelesaikan chat atau bukan milik Anda'')])
           | (st1, Inr (Some r)) \<Rightarrow>
               (let outs1 = Unsubscribe (TSession sessId) # notifyChatResolved st1 sessId u
                              @ [Send (Frame ''chat:resolved'' (SessionIdData sessId))]
                in case processQueue cfg st1 of
                     ((st2, Inl e), outs2) \<Rightarrow> (st2, outs1 @ outs2 @ [serverError ''Terjadi kesalahan server''])
                   | ((st2, Inr n), outs2) \<Rightarrow> (st2, outs1 @ outs2))))"

section \<open>Handlers that run at the same time\<close>

text \<open>
  A handler is an \<^verbatim>\<open>async\<close> function: it runs without interruption up to its next
  \<^verbatim>\<open>await\<close> of a Prisma call, and other handlers may run before the call's result comes
  back. \<open>acceptStep\<close> is \<^verbatim>\<open>handleCsAcceptChat\<close> cut at its awaits: one step performs the
  awaited call and the code after it up to the next call. The program counter holds the
  local variables that are live at that point.
\<close>

datatype AcceptPc =
    PcStart
  | PcCheckedCs ident
  | PcFound ident ChatSessionWithMessages time
  | PcUpdated ident ChatSessionWithMessages ChatSession "CsInfo option"
  | PcIncremented ident ChatSessionWithMessages ChatSession "CsInfo option"
  | PcAssigned ident ChatSessionWithMessages
  | PcDone

fun acceptStep :: "Store \<Rightarrow> WsData \<Rightarrow> ident \<Rightarrow> AcceptPc \<Rightarrow> Store \<times> AcceptPc \<times> Out list" where
  "acceptStep st ws sessId PcStart =
     (case wsUserId ws of
        None \<Rightarrow> (st, PcDone, [Send (createErrorMessage ''UNAUTHORIZED'' ''Tidak terautentikasi'')])
      | Some u \<Rightarrow>
          (case csStatusFindUnique st u of
             None \<Rightarrow> (st, PcDone, [Send (createErrorMessage ''NOT_ONLINE'' ''Anda harus online untuk menerima chat'')])
           | Some csStatus \<Rightarrow>
               if csState csStatus \<noteq> Online then
                 (st, PcDone, [Send (createErrorMessage ''NOT_ONLINE'' ''Anda harus online untuk menerima chat'')])
               else if currentChats csStatus \<ge> maxChats csStatus then
                 (st, PcDone, [Send (createErrorMessage ''AT_CAPACITY'' ''Anda sudah mencapai batas chat maksimal'')])
               else (st, PcCheckedCs u, [])))"
| "acceptStep st ws sessId (PcCheckedCs u) =
     (case getSessionById st sessId of
        None \<Rightarrow> (st, PcDone, [Send (createErrorMessage ''SESSION_NOT_FOUND'' ''Chat tidak ditemukan'')])
      | Some s \<Rightarrow>
          if status (session s) \<noteq> Waiting then
            (st, PcDone, [Send (createErrorMessage ''ALREADY_ASSIGNED'' ''Chat sudah ditangani CS lain'')])
          else (let (t, st0) = now st in (st0, PcFound u s t, [])))"
| "acceptStep st ws sessId (PcFound u s t) =
     (case chatSessionUpdate st sessId
             (\<lambda>x. x\<lparr>assignedCsId := Some u, status := Active, assignedAt := Some t\<rparr>) of
        (st1, Inl e) \<Rightarrow> (st1, PcDone, [serverError ''Terjadi kesalahan server''])
      | (st1, Inr updated) \<Rightarrow> (st1, PcUpdated u s updated (includeAssignedCs st1 updated), []))"
| "acceptStep st ws sessId (PcUpdated u s updated cs) =
     (case csStatusUpdate st u (\<lambda>c. c\<lparr>currentChats := currentChats c + 1\<rparr>) of
        (st2, Inl e) \<Rightarrow> (st2, PcDone, [serverError ''Terjadi kesalahan server''])
      | (st2, Inr _) \<Rightarrow> (st2, PcIncremented u s updated cs, []))"
| "acceptStep st ws sessId (PcIncremented u s updated cs) =
     (let (st3, m) = messageCreate st sessId System None (joinedText cs) MSystem
      in (st3, PcAssigned u s, [Subscribe (TSession sessId)]))"
| "acceptStep st ws sessId (PcAssigned u s) =
     (let user = userFindUnique st u
      in (st, PcDone,
          notifyChatAssigned st sessId u (nameOrCS user) (case user of None \<Rightarrow> None | Some x \<Rightarrow> avatarUrl x)
          @ [Send (Frame ''chat:accepted''
               (ChatAcceptedData sessId (customerName (session s)) (customerEmail (session s))
                  (messages s) (sessionCreatedAt (session s))))]))"
| "acceptStep st ws sessId PcDone = (st, PcDone, [])"

text \<open>One handler alone: its steps one after the other.\<close>

fun runAccept :: "nat \<Rightarrow> Store \<Rightarrow> WsData \<Rightarrow> ident \<Rightarrow> AcceptPc \<Rightarrow> Store \<times> AcceptPc \<times> Out list" where
  "runAccept 0 st ws sessId pc = (st, pc, [])"
| "runAccept (Suc n) st ws sessId pc =
     (case acceptStep st ws sessId pc of
        (st1, pc1, outs1) \<Rightarrow>
          (case runAccept n st1 ws sessId pc1 of (st2, pc2, outs2) \<Rightarrow> (st2, pc2, outs1 @ outs2)))"

text \<open>
  Several \<^verbatim>\<open>cs:accept_chat\<close> frames in flight, each on its own connection. A schedule
  names, step by step, the handler whose pending call completes next.
\<close>

record AcceptTask =
  taskWs :: WsData
  taskSessionId :: ident
  taskPc :: AcceptPc
  taskOut :: "Out list"

definition newAcceptTask :: "ident \<Rightarrow> ident \<Rightarrow> AcceptTask" where
  "newAcceptTask u sessId =
     \<lparr>taskWs = \<lparr>wsRole = WsCs, wsUserId = Some u, wsSessionId = None, wsCustomerToken = None\<rparr>,
      taskSessionId = sessId, taskPc = PcStart, taskOut = []\<rparr>"

fun runSchedule :: "nat list \<Rightarrow> Store \<Rightarrow> AcceptTask list \<Rightarrow> Store \<times> AcceptTask list" where
  "runSchedule [] st tasks = (st, tasks)"
| "runSchedule (i # rest) st tasks =
     (if i < length tasks then
        (case acceptStep st (taskWs (tasks ! i)) (taskSessionId (tasks ! i)) (taskPc (tasks ! i)) of
           (st1, pc1, outs) \<Rightarrow>
             runSchedule rest st1
               (tasks[i := (tasks ! i)\<lparr>taskPc := pc1, taskOut := taskOut (tasks ! i) @ outs\<rparr>]))
      else runSchedule rest st tasks)"

section \<open>Observations used in the statements\<close>

fun sentEvents :: "Out list \<Rightarrow> string list" where
  "sentEvents [] = []"
| "sentEvents (Send f # outs) = frameEvent f # sentEvents outs"
| "sentEvents (_ # outs) = sentEvents outs"

definition accepted :: "Out list \<Rightarrow> bool" where
  "accepted outs = (''chat:accepted'' \<in> set (sentEvents outs))"

fun errorCodes :: "Out list \<Rightarrow> string list" where
  "errorCodes [] = []"
| "errorCodes (Send (Frame ev (ErrorData code msg)) # outs) = code # errorCodes outs"
| "errorCodes (_ # outs) = errorCodes outs"

definition activeChatCount :: "Store \<Rightarrow> ident \<Rightarrow> nat" where
  "activeChatCount st a =
     length (filter (\<lambda>s. status s = Active \<and> assignedCsId s = Some a) (sessions st))"

definition capacityInvariant :: "Store \<Rightarrow> bool" where
  "capacityInvariant st = list_all
     (\<lambda>c. 0 \<le> currentChats c \<and> currentChats c \<le> maxChats c
          \<and> currentChats c = int (activeChatCount st (userId c)))
     (csStatuses st)"

definition isTerminal :: "ChatSession \<Rightarrow> bool" where
  "isTerminal s = (status s = Resolved \<or> status s = Abandoned)"



text \<open>The agents \<^verbatim>\<open>autoAssignChat\<close> chooses from.\<close>

definition candidate :: "Store \<Rightarrow> User \<Rightarrow> CsStatus \<Rightarrow> bool" where
  "candidate st u c = (u \<in> set (users st) \<and> role u = RoleCs \<and> isActive u
     \<and> csStatusFindUnique st (uid u) = Some c \<and> csState c = Online
     \<and> currentChats c < maxChats c)"

section \<open>Example stores\<close>

definition adaSession :: ChatSession where
  "adaSession = \<lparr>sid = 1, customerName = Some ''Ada'', customerEmail = None,
     customerToken = ''cust_ada'', status = Waiting, assignedCsId = None,
     sessionCreatedAt = 1000, assignedAt = None, resolvedAt = None, rating = None, feedback = None\<rparr>"

definition adaWelcome :: Message where
  "adaWelcome = \<lparr>mid = 2, sessionId = 1, senderType = System, senderId = None,
     content = ''Chat started. Waiting for customer service...'', messageType = MSystem,
     isRead = False, createdAt = 1000\<rparr>"

definition budi :: User where
  "budi = \<lparr>uid = 7, userName = ''Budi'', role = RoleCs, isActive = True, avatarUrl = None\<rparr>"

definition citra :: User where
  "citra = \<lparr>uid = 8, userName = ''Citra'', role = RoleCs, isActive = True, avatarUrl = None\<rparr>"

text \<open>
  Ada waits; Budi and Citra are online with no chats and room for one each; Citra has been
  idle longer. One millisecond passes before each clock read.
\<close>

definition queueStore :: Store where
  "queueStore = \<lparr>sessions = [adaSession], messagesTbl = [adaWelcome],
     csStatuses = [\<lparr>userId = 7, csState = Online, maxChats = 1, currentChats = 0, lastActiveAt = 900\<rparr>,
                   \<lparr>userId = 8, csState = Online, maxChats = 1, currentChats = 0, lastActiveAt = 500\<rparr>],
     users = [budi, citra], activityLog = [], nextId = 3, clock = 2000,
     ticks = [1, 1, 1, 1, 1, 1, 1, 1], serverReady = True, tieOrder = []\<rparr>"


text \<open>Ada's chat is active with Budi, who is busy and at his limit of one chat.\<close>

definition busyStore :: Store where
  "busyStore = \<lparr>sessions = [adaSession\<lparr>status := Active, assignedCsId := Some 7, assignedAt := Some 1500\<rparr>,
                             adaSession\<lparr>sid := 4, customerToken := ''cust_eve''\<rparr>],
     messagesTbl = [adaWelcome],
     csStatuses = [\<lparr>userId = 7, csState = Busy, maxChats = 1, currentChats = 1, lastActiveAt = 900\<rparr>],
     users = [budi], activityLog = [], nextId = 5, clock = 2000, ticks = [], serverReady = True, tieOrder = []\<rparr>"

text \<open>As \<open>busyStore\<close>, but Budi is online.\<close>

definition fullStore :: Store where
  "fullStore = busyStore\<lparr>csStatuses :=
     [\<lparr>userId = 7, csState = Online, maxChats = 1, currentChats = 1, lastActiveAt = 900\<rparr>]\<rparr>"

text \<open>Ada's chat is active with Budi; one millisecond passes before each clock read.\<close>

definition activeStore :: Store where
  "activeStore = \<lparr>sessions = [adaSession\<lparr>status := Active, assignedCsId := Some 7, assignedAt := Some 1500\<rparr>],
     messagesTbl = [adaWelcome],
     csStatuses = [\<lparr>userId = 7, csState = Online, maxChats = 1, currentChats = 1, lastActiveAt = 900\<rparr>],
     users = [budi], activityLog = [], nextId = 3, clock = 2000, ticks = [1, 1, 1, 1],
     serverReady = True, tieOrder = []\<rparr>"

text \<open>Ada's chat was resolved by Budi at 1800.\<close>

definition resolvedStore :: Store where
  "resolvedStore = \<lparr>sessions = [adaSession\<lparr>status := Resolved, assignedCsId := Some 7,
                                            assignedAt := Some 1500, resolvedAt := Some 1800\<rparr>],
     messagesTbl = [adaWelcome],
     csStatuses = [\<lparr>userId = 7, csState = Online, maxChats = 1, currentChats = 0, lastActiveAt = 900\<rparr>],
     users = [budi], activityLog = [], nextId = 3, clock = 2000, ticks = [], serverReady = True, tieOrder = []\<rparr>"

text \<open>
  Ada's chat is active with Budi and its only message is from 1000; the idle timeout is
  1800 seconds and the clock stands at exactly \<open>1000 + 1800 * 1000\<close>.
\<close>

definition idleConfig :: Config where
  "idleConfig = \<lparr>autoAssignEnabled = True, chatIdleTimeout = 1800\<rparr>"

definition idleStore :: "time \<Rightarrow> Store" where
  "idleStore t = \<lparr>sessions = [adaSession\<lparr>status := Active, assignedCsId := Some 7, assignedAt := Some 1000\<rparr>],
     messagesTbl = [adaWelcome],
     csStatuses = [\<lparr>userId = 7, csState = Online, maxChats = 1, currentChats = 1, lastActiveAt = 900\<rparr>],
     users = [budi], activityLog = [], nextId = 3, clock = t, ticks = [], serverReady = True, tieOrder = []\<rparr>"



definition adaWs :: WsData where
  "adaWs = \<lparr>wsRole = WsCustomer, wsUserId = None, wsSessionId = Some 1, wsCustomerToken = Some ''cust_ada''\<rparr>"


definition csWs :: "ident \<Rightarrow> WsData" where
  "csWs u = \<lparr>wsRole = WsCs, wsUserId = Some u, wsSessionId = None, wsCustomerToken = None\<rparr>"

section \<open>Auxiliary facts\<close>

lemma sentEvents_append: "sentEvents (xs @ ys) = sentEvents xs @ sentEvents ys"
  by (induction xs rule: sentEvents.induct) simp_all

lemma errorCodes_append: "errorCodes (xs @ ys) = errorCodes xs @ errorCodes ys"
  by (induction xs rule: errorCodes.induct) simp_all

lemma sentEvents_publish: "sentEvents (publishToTopic st t ev d) = []"
  by (simp add: publishToTopic_def)

lemma errorCodes_publish: "errorCodes (publishToTopic st t ev d) = []"
  by (simp add: publishToTopic_def)

lemma notifyCustomerLeft_quiet:
  "sentEvents (notifyCustomerLeft st i a) = [] \<and> errorCodes (notifyCustomerLeft st i a) = []"
  by (simp add: notifyCustomerLeft_def notifyCS_def notifyQueue_def sentEvents_append
      errorCodes_append sentEvents_publish errorCodes_publish split: option.splits)

lemma find_sid_map:
  assumes "\<And>x. sid (f x) = sid x"
  shows "find (\<lambda>s. sid s = i) (map (\<lambda>x. if sid x = j then f x else x) xs)
       = (if i = j then map_option f (find (\<lambda>s. sid s = i) xs) else find (\<lambda>s. sid s = i) xs)"
  using assms by (induction xs) auto

lemma find_userId_map:
  assumes "\<And>x. userId (f x) = userId x"
  shows "find (\<lambda>c. userId c = i) (map (\<lambda>x. if userId x = j then f x else x) xs)
       = (if i = j then map_option f (find (\<lambda>c. userId c = i) xs) else find (\<lambda>c. userId c = i) xs)"
  using assms by (induction xs) auto

lemma now_frame:
  "now st = (t, st') \<Longrightarrow> sessions st' = sessions st \<and> csStatuses st' = csStatuses st
     \<and> messagesTbl st' = messagesTbl st \<and> users st' = users st \<and> serverReady st' = serverReady st
     \<and> nextId st' = nextId st \<and> activityLog st' = activityLog st \<and> clock st \<le> t \<and> clock st' = t
     \<and> tieOrder st' = tieOrder st"
  by (auto simp: now_def split: list.splits)

lemma chatSessionUpdate_frame:
  "chatSessionUpdate st j f = (st', r) \<Longrightarrow> csStatuses st' = csStatuses st
     \<and> messagesTbl st' = messagesTbl st \<and> users st' = users st \<and> serverReady st' = serverReady st
     \<and> nextId st' = nextId st \<and> activityLog st' = activityLog st \<and> clock st' = clock st \<and> ticks st' = ticks st"
  by (auto simp: chatSessionUpdate_def split: option.splits)

lemma chatSessionUpdate_find:
  assumes "chatSessionUpdate st j f = (st', r)" and "\<And>x. sid (f x) = sid x"
  shows "chatSessionFindUnique st' i
       = (if i = j then map_option f (chatSessionFindUnique st i) else chatSessionFindUnique st i)"
  using assms
  by (auto simp: chatSessionUpdate_def chatSessionFindUnique_def find_sid_map split: option.splits)

lemma chatSessionUpdate_result:
  "chatSessionUpdate st j f = (st', Inr x) \<Longrightarrow> \<exists>s. chatSessionFindUnique st j = Some s \<and> x = f s"
  by (auto simp: chatSessionUpdate_def split: option.splits)

lemma csStatusUpdate_frame:
  "csStatusUpdate st j f = (st', r) \<Longrightarrow> sessions st' = sessions st
     \<and> messagesTbl st' = messagesTbl st \<and> users st' = users st \<and> serverReady st' = serverReady st
     \<and> nextId st' = nextId st \<and> activityLog st' = activityLog st \<and> clock st' = clock st \<and> ticks st' = ticks st"
  by (auto simp: csStatusUpdate_def split: option.splits)

lemma csStatusUpdate_find:
  assumes "csStatusUpdate st j f = (st', r)" and "\<And>x. userId (f x) = userId x"
  shows "csStatusFindUnique st' i
       = (if i = j then map_option f (csStatusFindUnique st i) else csStatusFindUnique st i)"
  using assms
  by (auto simp: csStatusUpdate_def csStatusFindUnique_def find_userId_map split: option.splits)

lemma csStatusUpdate_result:
  "csStatusUpdate st j f = (st', Inr x) \<Longrightarrow> \<exists>c. csStatusFindUnique st j = Some c \<and> x = f c"
  by (auto simp: csStatusUpdate_def split: option.splits)

lemma messageCreate_frame:
  "messageCreate st i sender sndr body mt = (st', m) \<Longrightarrow> sessions st' = sessions st
     \<and> csStatuses st' = csStatuses st \<and> users st' = users st \<and> serverReady st' = serverReady st
     \<and> activityLog st' = activityLog st
     \<and> messagesTbl st' = messagesTbl st @ [m] \<and> sessionId m = i \<and> senderType m = sender
     \<and> content m = body \<and> clock st \<le> createdAt m \<and> clock st' = createdAt m"
  by (auto simp: messageCreate_def Let_def split: prod.splits dest!: now_frame)

text \<open>What a call of \<^verbatim>\<open>assignChat\<close> that returns has written.\<close>

lemma assignChat_success:
  assumes "assignChat st sessId u = (st1, Inr a)"
  shows "\<exists>s s' c c'. chatSessionFindUnique st sessId = Some s
     \<and> chatSessionFindUnique st1 sessId = Some s' \<and> status s' = Active \<and> assignedCsId s' = Some u
     \<and> csStatusFindUnique st u = Some c \<and> csStatusFindUnique st1 u = Some c'
     \<and> currentChats c' = currentChats c + 1"
proof -
  obtain t st0 where n: "now st = (t, st0)" by (cases "now st")
  let ?f = "\<lambda>s. s\<lparr>assignedCsId := Some u, status := Active, assignedAt := Some t\<rparr>"
  let ?g = "\<lambda>c. c\<lparr>currentChats := currentChats c + 1\<rparr>"
  obtain sa ra where up: "chatSessionUpdate st0 sessId ?f = (sa, ra)" by (cases "chatSessionUpdate st0 sessId ?f")
  from assms n up obtain updated where ra: "ra = Inr updated"
    by (cases ra) (auto simp: assignChat_def andThen_def)
  obtain sb rb where cu: "csStatusUpdate sa u ?g = (sb, rb)" by (cases "csStatusUpdate sa u ?g")
  from assms n up ra cu obtain c1 where rb: "rb = Inr c1"
    by (cases rb) (auto simp: assignChat_def andThen_def)
  obtain sc m where mc: "messageCreate sb sessId System None (joinedText (includeAssignedCs sa updated)) MSystem = (sc, m)"
    by (cases "messageCreate sb sessId System None (joinedText (includeAssignedCs sa updated)) MSystem")
  from assms n up ra cu rb mc have st1: "st1 = sc"
    by (auto simp: assignChat_def andThen_def)
  from chatSessionUpdate_result[OF up[unfolded ra]] obtain s where
    s: "chatSessionFindUnique st0 sessId = Some s" "updated = ?f s" by blast
  from csStatusUpdate_result[OF cu[unfolded rb]] obtain c where
    c: "csStatusFindUnique sa u = Some c" "c1 = ?g c" by blast
  have f1: "chatSessionFindUnique sa sessId = Some (?f s)"
    using chatSessionUpdate_find[OF up, of sessId] s by simp
  have "sessions sc = sessions sa"
    using csStatusUpdate_frame[OF cu] messageCreate_frame[OF mc] by simp
  then have f2: "chatSessionFindUnique st1 sessId = Some (?f s)"
    using f1 st1 by (simp add: chatSessionFindUnique_def)
  have "sessions st0 = sessions st" using now_frame[OF n] by simp
  then have f0: "chatSessionFindUnique st sessId = Some s" using s by (simp add: chatSessionFindUnique_def)
  have "csStatuses sa = csStatuses st" using now_frame[OF n] chatSessionUpdate_frame[OF up] by simp
  then have c0: "csStatusFindUnique st u = Some c" using c by (simp add: csStatusFindUnique_def)
  have c2: "csStatusFindUnique sb u = Some (?g c)"
    using csStatusUpdate_find[OF cu, of u] c by simp
  have "csStatuses sc = csStatuses sb" using messageCreate_frame[OF mc] by simp
  then have c3: "csStatusFindUnique st1 u = Some (?g c)" using c2 st1 by (simp add: csStatusFindUnique_def)
  show ?thesis using f0 f2 c0 c3 by simp
qed

lemma accepted_error: "\<not> accepted [Send (createErrorMessage code msg)]"
  "\<not> accepted [Send (Frame ''system:error'' d)]"
  by (simp_all add: accepted_def createErrorMessage_def frameEvent_def)

lemma accept_success_assign:
  assumes "handleCsAcceptChat st ws sessId = (st1, outs)" and "accepted outs"
  shows "\<exists>u a. wsUserId ws = Some u \<and> assignChat st sessId u = (st1, Inr a)"
proof (cases "wsUserId ws")
  case None
  with assms show ?thesis by (auto simp: handleCsAcceptChat_def accepted_error)
next
  case (Some u)
  show ?thesis
  proof (cases "csStatusFindUnique st u")
    case None
    with Some assms show ?thesis by (auto simp: handleCsAcceptChat_def accepted_error)
  next
    case c: (Some c)
    show ?thesis
    proof (cases "csState c = Online \<and> currentChats c < maxChats c")
      case False
      with Some c assms show ?thesis
        by (auto simp: handleCsAcceptChat_def accepted_error split: if_splits)
    next
      case ok: True
      show ?thesis
      proof (cases "getSessionById st sessId")
        case None
        with Some c ok assms show ?thesis by (auto simp: handleCsAcceptChat_def accepted_error)
      next
        case s: (Some s)
        show ?thesis
        proof (cases "status (session s) = Waiting")
          case False
          with Some c ok s assms show ?thesis by (auto simp: handleCsAcceptChat_def accepted_error)
        next
          case w: True
          obtain x1 r where a: "assignChat st sessId u = (x1, r)" by (cases "assignChat st sessId u")
          show ?thesis
          proof (cases r)
            case (Inl e)
            with Some c ok s w a assms show ?thesis
              by (auto simp: handleCsAcceptChat_def accepted_error serverError_def)
          next
            case (Inr b)
            with Some c ok s w a assms have "x1 = st1"
              by (simp add: handleCsAcceptChat_def Let_def)
            with Some a Inr show ?thesis by simp
          qed
        qed
      qed
    qed
  qed
qed


lemma accept_not_waiting:
  assumes "chatSessionFindUnique st sessId = Some s" and "status s \<noteq> Waiting"
  shows "fst (handleCsAcceptChat st ws sessId) = st
    \<and> \<not> accepted (snd (handleCsAcceptChat st ws sessId))
    \<and> length (errorCodes (snd (handleCsAcceptChat st ws sessId))) = 1
    \<and> (\<forall>u c. wsUserId ws = Some u \<and> csStatusFindUnique st u = Some c \<and> csState c = Online
            \<and> currentChats c < maxChats c \<longrightarrow>
          snd (handleCsAcceptChat st ws sessId)
            = [Send (createErrorMessage ''ALREADY_ASSIGNED'' ''Chat sudah ditangani CS lain'')])"
proof -
  have g: "getSessionById st sessId = Some (withMessages st s)"
    using assms(1) by (simp add: getSessionById_def)
  have w: "status (session (withMessages st s)) \<noteq> Waiting"
    using assms(2) by (simp add: withMessages_def)
  show ?thesis
    by (simp add: handleCsAcceptChat_def g w accepted_error createErrorMessage_def
        split: option.splits)
qed

lemma assignChat_result:
  assumes "assignChat st sessId u = (st1, Inr (upd, cs))"
  shows "status upd = Active \<and> assignedCsId upd = Some u \<and> serverReady st1 = serverReady st"
proof -
  obtain t st0 where n: "now st = (t, st0)" by (cases "now st")
  let ?f = "\<lambda>s. s\<lparr>assignedCsId := Some u, status := Active, assignedAt := Some t\<rparr>"
  let ?g = "\<lambda>c. c\<lparr>currentChats := currentChats c + 1\<rparr>"
  obtain sa ra where up: "chatSessionUpdate st0 sessId ?f = (sa, ra)" by (cases "chatSessionUpdate st0 sessId ?f")
  from assms n up obtain updated where ra: "ra = Inr updated"
    by (cases ra) (auto simp: assignChat_def andThen_def)
  obtain sb rb where cu: "csStatusUpdate sa u ?g = (sb, rb)" by (cases "csStatusUpdate sa u ?g")
  from assms n up ra cu obtain c1 where rb: "rb = Inr c1"
    by (cases rb) (auto simp: assignChat_def andThen_def)
  obtain sc m where mc: "messageCreate sb sessId System None (joinedText (includeAssignedCs sa updated)) MSystem = (sc, m)"
    by (cases "messageCreate sb sessId System None (joinedText (includeAssignedCs sa updated)) MSystem")
  from assms n up ra cu rb mc have st1: "st1 = sc" "upd = updated"
    by (auto simp: assignChat_def andThen_def)
  from chatSessionUpdate_result[OF up[unfolded ra]] obtain s where
    s: "updated = ?f s" by blast
  have "serverReady sc = serverReady st"
    using now_frame[OF n] chatSessionUpdate_frame[OF up] csStatusUpdate_frame[OF cu]
      messageCreate_frame[OF mc] by simp
  then show ?thesis using st1 s by simp
qed

lemma set_map_filter_iff: "y \<in> set (List.map_filter g xs) \<longleftrightarrow> (\<exists>x \<in> set xs. g x = Some y)"
  by (induction xs) (auto split: option.splits)

lemma availableCS_member:
  "(u, c) \<in> set (availableCS st) \<longleftrightarrow>
     u \<in> set (users st) \<and> role u = RoleCs \<and> isActive u
     \<and> csStatusFindUnique st (uid u) = Some c \<and> csState c = Online"
proof -
  let ?g = "\<lambda>u. case csStatusFindUnique st (uid u) of
                None \<Rightarrow> None
              | Some c \<Rightarrow> if role u = RoleCs \<and> isActive u \<and> csState c = Online then Some (u, c) else None"
  have g: "?g x = Some (u, c) \<longleftrightarrow> x = u \<and> role u = RoleCs \<and> isActive u
     \<and> csStatusFindUnique st (uid u) = Some c \<and> csState c = Online" for x
    by (cases "csStatusFindUnique st (uid x)") auto
  have "(u, c) \<in> set (availableCS st) \<longleftrightarrow> (\<exists>x \<in> set (users st). ?g x = Some (u, c))"
    unfolding availableCS_def by (simp only: set_sort set_map_filter_iff)
  also have "\<dots> \<longleftrightarrow> u \<in> set (users st) \<and> role u = RoleCs \<and> isActive u
     \<and> csStatusFindUnique st (uid u) = Some c \<and> csState c = Online"
    unfolding g by blast
  finally show ?thesis .
qed

lemma csWithCapacity_member: "(u, c) \<in> set (csWithCapacity st) \<longleftrightarrow> candidate st u c"
  unfolding csWithCapacity_def candidate_def by (simp add: availableCS_member)

lemma csWithCapacity_sorted: "sorted (map (\<lambda>p. currentChats (snd p)) (csWithCapacity st))"
  unfolding csWithCapacity_def availableCS_def
  by (intro sorted_filter sorted_sort_key)

lemma autoAssign_selected:
  assumes "autoAssignChat cfg st sessId = ((st1, Inr (Some (sess, CsInfo a n av))), outs)"
  shows "\<exists>u c rest. csWithCapacity st = (u, c) # rest \<and> uid u = a \<and> n = userName u \<and> av = avatarUrl u
     \<and> autoAssignEnabled cfg
     \<and> (\<exists>cs. assignChat st sessId a = (st1, Inr (sess, cs)))
     \<and> outs = SubscribeUser a (TSession sessId) # notifyChatAssigned st1 sessId a n av"
proof (cases "csWithCapacity st")
  case Nil
  with assms show ?thesis by (auto simp: autoAssignChat_def split: if_splits)
next
  case (Cons p rest)
  obtain u c where p: "p = (u, c)" by (cases p)
  obtain x1 r where a: "assignChat st sessId (uid u) = (x1, r)" by (cases "assignChat st sessId (uid u)")
  show ?thesis
  proof (cases r)
    case (Inl e)
    with assms Cons p a show ?thesis by (auto simp: autoAssignChat_def split: if_splits)
  next
    case (Inr b)
    obtain s2 cs where b: "b = (s2, cs)" by (cases b)
    with assms Cons p a Inr show ?thesis
      by (auto simp: autoAssignChat_def selectCs_def split: if_splits)
  qed
qed

lemma sessionMessages_sorted: "sorted (map createdAt (sessionMessages st i))"
  by (simp add: sessionMessages_def sorted_sort_key)




text \<open>The loop of \<^verbatim>\<open>checkIdleChats\<close>, one chat at a time and as a whole.\<close>

lemma find_session_in_set:
  "chatSessionFindUnique st i = Some s \<Longrightarrow> s \<in> set (sessions st) \<and> sid s = i"
  by (auto simp: chatSessionFindUnique_def find_Some_iff)

lemma session_in_set_found:
  "c \<in> set (sessions st) \<Longrightarrow> chatSessionFindUnique st (sid c) \<noteq> None"
  by (auto simp: chatSessionFindUnique_def find_None_iff)

lemma latestMessage_last:
  assumes "latestMessage st i = Some m"
  shows "m \<in> set (messagesTbl st) \<and> sessionId m = i
    \<and> (\<forall>m' \<in> set (messagesTbl st). sessionId m' = i \<longrightarrow> createdAt m' \<le> createdAt m)"
proof -
  from assms obtain rest where "rev (sessionMessages st i) = m # rest"
    by (auto simp: latestMessage_def split: list.splits)
  then have eq: "sessionMessages st i = rev rest @ [m]"
    by (metis rev_rev_ident rev.simps(2))
  have "set (sessionMessages st i) = {x \<in> set (messagesTbl st). sessionId x = i}"
    by (auto simp: sessionMessages_def)
  then have mem: "m \<in> set (messagesTbl st) \<and> sessionId m = i"
    and all: "\<And>m'. m' \<in> set (messagesTbl st) \<Longrightarrow> sessionId m' = i \<Longrightarrow> m' \<in> set (rev rest @ [m])"
    using eq by auto
  have "sorted (map createdAt (rev rest @ [m]))"
    using sessionMessages_sorted[of st i] eq by simp
  then have "\<And>x. x \<in> set (rev rest @ [m]) \<Longrightarrow> createdAt x \<le> createdAt m"
    by (auto simp: sorted_append)
  with mem all show ?thesis by blast
qed

lemma idleChats_member:
  "(c, lm) \<in> set (idleChats st th) \<longleftrightarrow>
     c \<in> set (sessions st) \<and> (status c = Waiting \<or> status c = Active)
     \<and> list_all (\<lambda>m. createdAt m < th) (filter (\<lambda>m. sessionId m = sid c) (messagesTbl st))
     \<and> lm = latestMessage st (sid c)"
  by (auto simp: idleChats_def)

lemma idleChats_cong:
  assumes "sessions a = sessions b" and "messagesTbl a = messagesTbl b" and "tieOrder a = tieOrder b"
  shows "idleChats a th = idleChats b th"
proof -
  have "tieRank a = tieRank b"
    using assms(3) by (auto simp: tieRank_def)
  then show ?thesis
    using assms(1,2) by (simp add: idleChats_def latestMessage_def sessionMessages_def)
qed

lemma abandonIdle_idle_step:
  assumes cond: "(case lm of None \<Rightarrow> True | Some m \<Rightarrow> createdAt m < th)"
    and found: "chatSessionFindUnique st (sid chat) = Some s"
  shows "\<exists>t st3 m. abandonIdle th ((chat, lm) # rest) st ids = abandonIdle th rest st3 (ids @ [sid chat])
       \<and> sessions st3 = map (\<lambda>x. if sid x = sid chat then x\<lparr>status := Abandoned, resolvedAt := Some t\<rparr> else x)
                           (sessions st)
       \<and> messagesTbl st3 = messagesTbl st @ [m] \<and> sessionId m = sid chat \<and> senderType m = System
       \<and> content m = ''Chat ditutup karena tidak ada aktivitas''
       \<and> clock st \<le> t \<and> t \<le> createdAt m"
proof -
  obtain t st0 where n: "now st = (t, st0)" by (cases "now st")
  let ?f = "\<lambda>s. s\<lparr>status := Abandoned, resolvedAt := Some t\<rparr>"
  have f0: "chatSessionFindUnique st0 (sid chat) = Some s"
    using found now_frame[OF n] by (simp add: chatSessionFindUnique_def)
  define st1 where "st1 = st0\<lparr>sessions := map (\<lambda>x. if sid x = sid chat then ?f x else x) (sessions st0)\<rparr>"
  have up: "chatSessionUpdate st0 (sid chat) ?f = (st1, Inr (?f s))"
    using f0 by (simp add: chatSessionUpdate_def st1_def)
  define st2 where "st2 = (case assignedCsId chat of
                            None \<Rightarrow> st1
                          | Some a \<Rightarrow> fst (csStatusUpdate st1 a (\<lambda>c. c\<lparr>currentChats := currentChats c - 1\<rparr>)))"
  have fr2: "sessions st2 = sessions st1 \<and> messagesTbl st2 = messagesTbl st1 \<and> clock st2 = clock st1"
  proof (cases "assignedCsId chat")
    case None
    then show ?thesis by (simp add: st2_def)
  next
    case (Some a)
    obtain x y where c: "csStatusUpdate st1 a (\<lambda>c. c\<lparr>currentChats := currentChats c - 1\<rparr>) = (x, y)"
      by (cases "csStatusUpdate st1 a (\<lambda>c. c\<lparr>currentChats := currentChats c - 1\<rparr>)")
    from csStatusUpdate_frame[OF c] Some c show ?thesis by (simp add: st2_def)
  qed
  obtain st3 m where mc: "messageCreate st2 (sid chat) System None
                                ''Chat ditutup karena tidak ada aktivitas'' MSystem = (st3, m)"
    by (cases "messageCreate st2 (sid chat) System None
                                ''Chat ditutup karena tidak ada aktivitas'' MSystem")
  have run: "abandonIdle th ((chat, lm) # rest) st ids = abandonIdle th rest st3 (ids @ [sid chat])"
    using cond n up mc by (simp add: andThen_def st2_def)
  have s1: "sessions st1 = map (\<lambda>x. if sid x = sid chat then ?f x else x) (sessions st)"
    "messagesTbl st1 = messagesTbl st" "clock st1 = t" "clock st \<le> t"
    using now_frame[OF n] by (simp_all add: st1_def)
  from messageCreate_frame[OF mc] fr2 s1 run show ?thesis by auto
qed


lemma abandonIdle_loop:
  assumes "\<forall>p \<in> set chats. (case snd p of None \<Rightarrow> True | Some m \<Rightarrow> createdAt m < th)
              \<and> chatSessionFindUnique st (sid (fst p)) \<noteq> None"
  shows "\<exists>st'. abandonIdle th chats st ids = (st', Inr (ids @ map (\<lambda>p. sid (fst p)) chats))
     \<and> (\<forall>i. i \<notin> set (map (\<lambda>p. sid (fst p)) chats) \<longrightarrow>
            chatSessionFindUnique st' i = chatSessionFindUnique st i)
     \<and> (\<forall>i. (i \<in> set (map (\<lambda>p. sid (fst p)) chats)
              \<or> (\<exists>s. chatSessionFindUnique st i = Some s \<and> status s = Abandoned)) \<longrightarrow>
            (\<exists>s'. chatSessionFindUnique st' i = Some s' \<and> status s' = Abandoned))"
  using assms
proof (induction chats arbitrary: st ids)
  case Nil
  then show ?case by simp
next
  case (Cons p rest)
  obtain chat lm where p: "p = (chat, lm)" by (cases p)
  from Cons.prems p have cond: "(case lm of None \<Rightarrow> True | Some m \<Rightarrow> createdAt m < th)"
    and "chatSessionFindUnique st (sid chat) \<noteq> None" by auto
  then obtain s where found: "chatSessionFindUnique st (sid chat) = Some s" by auto
  from abandonIdle_idle_step[OF cond found, of rest ids] obtain t st3 where
    run: "abandonIdle th ((chat, lm) # rest) st ids = abandonIdle th rest st3 (ids @ [sid chat])"
    and ses: "sessions st3 = map (\<lambda>x. if sid x = sid chat then x\<lparr>status := Abandoned, resolvedAt := Some t\<rparr> else x)
                           (sessions st)"
    by blast
  have f3: "chatSessionFindUnique st3 i =
      (if i = sid chat then map_option (\<lambda>x. x\<lparr>status := Abandoned, resolvedAt := Some t\<rparr>) (chatSessionFindUnique st i)
       else chatSessionFindUnique st i)" for i
    unfolding chatSessionFindUnique_def ses by (rule find_sid_map) simp
  have pre: "\<forall>q \<in> set rest. (case snd q of None \<Rightarrow> True | Some m \<Rightarrow> createdAt m < th)
              \<and> chatSessionFindUnique st3 (sid (fst q)) \<noteq> None"
    using Cons.prems by (auto simp: f3)
  from Cons.IH[OF pre, of "ids @ [sid chat]"] obtain st' where
    r: "abandonIdle th rest st3 (ids @ [sid chat]) = (st', Inr ((ids @ [sid chat]) @ map (\<lambda>p. sid (fst p)) rest))"
    and keep: "\<And>i. i \<notin> set (map (\<lambda>p. sid (fst p)) rest) \<Longrightarrow>
            chatSessionFindUnique st' i = chatSessionFindUnique st3 i"
    and ab: "\<And>i. (i \<in> set (map (\<lambda>p. sid (fst p)) rest)
              \<or> (\<exists>s. chatSessionFindUnique st3 i = Some s \<and> status s = Abandoned)) \<Longrightarrow>
            (\<exists>s'. chatSessionFindUnique st' i = Some s' \<and> status s' = Abandoned)"
    by blast
  have a: "abandonIdle th (p # rest) st ids = (st', Inr (ids @ map (\<lambda>p. sid (fst p)) (p # rest)))"
    using run r p by simp
  have b: "chatSessionFindUnique st' i = chatSessionFindUnique st i"
    if "i \<notin> set (map (\<lambda>p. sid (fst p)) (p # rest))" for i
    using that keep[of i] f3[of i] p by simp
  have c: "\<exists>s'. chatSessionFindUnique st' i = Some s' \<and> status s' = Abandoned"
    if h: "i \<in> set (map (\<lambda>p. sid (fst p)) (p # rest))
              \<or> (\<exists>s. chatSessionFindUnique st i = Some s \<and> status s = Abandoned)" for i
  proof (cases "i = sid chat")
    case True
    then have "\<exists>s. chatSessionFindUnique st3 i = Some s \<and> status s = Abandoned"
      using f3[of i] found by simp
    then show ?thesis using ab[of i] by blast
  next
    case False
    with h p have "i \<in> set (map (\<lambda>p. sid (fst p)) rest)
              \<or> (\<exists>s. chatSessionFindUnique st3 i = Some s \<and> status s = Abandoned)"
      using f3[of i] by auto
    then show ?thesis using ab[of i] by blast
  qed
  show ?case using a b c by blast
qed












text \<open>
  Run without interruption, the steps of \<open>acceptStep\<close> are \<^verbatim>\<open>handleCsAcceptChat\<close>.
\<close>

lemma runAccept_done: "runAccept n st ws sessId PcDone = (st, PcDone, [])"
  by (induction n) simp_all

lemma runAccept_assigned:
  "runAccept (Suc n) st ws sessId (PcAssigned u s) = (st, PcDone,
     notifyChatAssigned st sessId u (nameOrCS (userFindUnique st u))
       (case userFindUnique st u of None \<Rightarrow> None | Some x \<Rightarrow> avatarUrl x)
     @ [Send (Frame ''chat:accepted''
          (ChatAcceptedData sessId (customerName (session s)) (customerEmail (session s))
             (messages s) (sessionCreatedAt (session s))))])"
  by (simp add: runAccept_done Let_def)

lemma runAccept_incremented:
  "runAccept (Suc (Suc n)) st ws sessId (PcIncremented u s updated cs) =
     (case messageCreate st sessId System None (joinedText cs) MSystem of
        (st3, m) \<Rightarrow> (st3, PcDone, Subscribe (TSession sessId) #
           notifyChatAssigned st3 sessId u (nameOrCS (userFindUnique st3 u))
             (case userFindUnique st3 u of None \<Rightarrow> None | Some x \<Rightarrow> avatarUrl x)
           @ [Send (Frame ''chat:accepted''
                (ChatAcceptedData sessId (customerName (session s)) (customerEmail (session s))
                   (messages s) (sessionCreatedAt (session s))))]))"
proof -
  obtain st3 m where mc: "messageCreate st sessId System None (joinedText cs) MSystem = (st3, m)"
    by (cases "messageCreate st sessId System None (joinedText cs) MSystem")
  show ?thesis by (simp add: mc runAccept_done Let_def)
qed

lemma runAccept_found:
  "runAccept (Suc (Suc (Suc (Suc n)))) st0 ws sessId (PcFound u s t) =
     (case andThen (chatSessionUpdate st0 sessId
                 (\<lambda>s. s\<lparr>assignedCsId := Some u, status := Active, assignedAt := Some t\<rparr>))
        (\<lambda>st1 updated.
           andThen (csStatusUpdate st1 u (\<lambda>c. c\<lparr>currentChats := currentChats c + 1\<rparr>))
             (\<lambda>st2 _.
                (let cs = includeAssignedCs st1 updated;
                     (st3, m) = messageCreate st2 sessId System None (joinedText cs) MSystem
                 in (st3, Inr (updated, cs))))) of
        (st1, Inl e) \<Rightarrow> (st1, PcDone, [serverError ''Terjadi kesalahan server''])
      | (st1, Inr assigned) \<Rightarrow> (st1, PcDone, Subscribe (TSession sessId) #
           notifyChatAssigned st1 sessId u (nameOrCS (userFindUnique st1 u))
             (case userFindUnique st1 u of None \<Rightarrow> None | Some x \<Rightarrow> avatarUrl x)
           @ [Send (Frame ''chat:accepted''
                (ChatAcceptedData sessId (customerName (session s)) (customerEmail (session s))
                   (messages s) (sessionCreatedAt (session s))))]))"
proof -
  let ?f = "\<lambda>s. s\<lparr>assignedCsId := Some u, status := Active, assignedAt := Some t\<rparr>"
  obtain sa ra where up: "chatSessionUpdate st0 sessId ?f = (sa, ra)"
    by (cases "chatSessionUpdate st0 sessId ?f")
  show ?thesis
  proof (cases ra)
    case (Inl e)
    with up show ?thesis by (simp add: andThen_def runAccept_done)
  next
    case (Inr updated)
    let ?g = "\<lambda>c. c\<lparr>currentChats := currentChats c + 1\<rparr>"
    obtain sb rb where cu: "csStatusUpdate sa u ?g = (sb, rb)" by (cases "csStatusUpdate sa u ?g")
    show ?thesis
    proof (cases rb)
      case (Inl e)
      with up Inr cu show ?thesis by (simp add: andThen_def runAccept_done)
    next
      case c: (Inr c1)
      obtain st3 m where mc:
        "messageCreate sb sessId System None (joinedText (includeAssignedCs sa updated)) MSystem = (st3, m)"
        by (cases "messageCreate sb sessId System None (joinedText (includeAssignedCs sa updated)) MSystem")
      from up Inr cu c mc show ?thesis
        by (simp add: andThen_def runAccept_done Let_def)
    qed
  qed
qed

lemma runAccept_handler:
  "runAccept 6 st ws sessId PcStart
     = (fst (handleCsAcceptChat st ws sessId), PcDone, snd (handleCsAcceptChat st ws sessId))"
proof (cases "wsUserId ws")
  case None
  then show ?thesis by (simp add: eval_nat_numeral handleCsAcceptChat_def runAccept_done)
next
  case (Some u)
  show ?thesis
  proof (cases "csStatusFindUnique st u")
    case None
    with Some show ?thesis by (simp add: eval_nat_numeral handleCsAcceptChat_def runAccept_done)
  next
    case c: (Some c)
    show ?thesis
    proof (cases "csState c = Online \<and> currentChats c < maxChats c")
      case False
      with Some c show ?thesis
        by (auto simp: eval_nat_numeral handleCsAcceptChat_def runAccept_done)
    next
      case ok: True
      show ?thesis
      proof (cases "getSessionById st sessId")
        case None
        with Some c ok show ?thesis
          by (simp add: eval_nat_numeral handleCsAcceptChat_def runAccept_done)
      next
        case s: (Some s)
        show ?thesis
        proof (cases "status (session s) = Waiting")
          case False
          with Some c ok s show ?thesis
            by (simp add: eval_nat_numeral handleCsAcceptChat_def runAccept_done)
        next
          case w: True
          obtain t st0 where n: "now st = (t, st0)" by (cases "now st")
          define A where "A = andThen (chatSessionUpdate st0 sessId
                 (\<lambda>s. s\<lparr>assignedCsId := Some u, status := Active, assignedAt := Some t\<rparr>))
              (\<lambda>st1 updated.
                 andThen (csStatusUpdate st1 u (\<lambda>c. c\<lparr>currentChats := currentChats c + 1\<rparr>))
                   (\<lambda>st2 _.
                      (let cs = includeAssignedCs st1 updated;
                           (st3, m) = messageCreate st2 sessId System None (joinedText cs) MSystem
                       in (st3, Inr (updated, cs)))))"
          have four: "(4::nat) = Suc (Suc (Suc (Suc 0)))" by simp
          have e1: "runAccept 6 st ws sessId PcStart = runAccept 4 st0 ws sessId (PcFound u s t)"
            using Some c ok s w n by (simp add: eval_nat_numeral split: prod.splits)
          have e2: "runAccept 4 st0 ws sessId (PcFound u s t) =
            (case A of
               (st1, Inl e) \<Rightarrow> (st1, PcDone, [serverError ''Terjadi kesalahan server''])
             | (st1, Inr assigned) \<Rightarrow> (st1, PcDone, Subscribe (TSession sessId) #
                 notifyChatAssigned st1 sessId u (nameOrCS (userFindUnique st1 u))
                   (case userFindUnique st1 u of None \<Rightarrow> None | Some x \<Rightarrow> avatarUrl x)
                 @ [Send (Frame ''chat:accepted''
                      (ChatAcceptedData sessId (customerName (session s)) (customerEmail (session s))
                         (messages s) (sessionCreatedAt (session s))))]))"
            unfolding four A_def by (rule runAccept_found)
          have a: "assignChat st sessId u = A"
            using n by (simp add: assignChat_def A_def)
          have h: "handleCsAcceptChat st ws sessId =
            (case A of
               (st1, Inl e) \<Rightarrow> (st1, [serverError ''Terjadi kesalahan server''])
             | (st1, Inr assigned) \<Rightarrow> (st1, Subscribe (TSession sessId) #
                 notifyChatAssigned st1 sessId u (nameOrCS (userFindUnique st1 u))
                   (case userFindUnique st1 u of None \<Rightarrow> None | Some x \<Rightarrow> avatarUrl x)
                 @ [Send (Frame ''chat:accepted''
                      (ChatAcceptedData sessId (customerName (session s)) (customerEmail (session s))
                         (messages s) (sessionCreatedAt (session s))))]))"
            using Some c ok s w by (simp add: handleCsAcceptChat_def a Let_def)
          show ?thesis unfolding e1 e2 h
            by (simp split: prod.splits sum.splits)
        qed
      qed
    qed
  qed
qed


section \<open>Accepting a waiting chat\<close>

text \<open>
  An accept that runs alone after a successful accept of the same session finds the
  session active: it changes nothing and answers with one error.
\<close>

lemma accept_after_accept:
  assumes "handleCsAcceptChat st ws1 sessId = (st1, outs1)" and "accepted outs1"
  shows "(\<exists>u s' c c'. wsUserId ws1 = Some u \<and> chatSessionFindUnique st1 sessId = Some s'
            \<and> status s' = Active \<and> assignedCsId s' = Some u
            \<and> csStatusFindUnique st u = Some c \<and> csStatusFindUnique st1 u = Some c'
            \<and> currentChats c' = currentChats c + 1)
    \<and> fst (handleCsAcceptChat st1 ws2 sessId) = st1
    \<and> \<not> accepted (snd (handleCsAcceptChat st1 ws2 sessId))
    \<and> length (errorCodes (snd (handleCsAcceptChat st1 ws2 sessId))) = 1
    \<and> (\<forall>u c. wsUserId ws2 = Some u \<and> csStatusFindUnique st1 u = Some c \<and> csState c = Online
            \<and> currentChats c < maxChats c \<longrightarrow>
          snd (handleCsAcceptChat st1 ws2 sessId)
            = [Send (createErrorMessage ''ALREADY_ASSIGNED'' ''Chat sudah ditangani CS lain'')])"
proof -
  from accept_success_assign[OF assms] obtain u a where
    u: "wsUserId ws1 = Some u" and a: "assignChat st sessId u = (st1, Inr a)" by blast
  from assignChat_success[OF a] obtain s s' c c' where
    f: "chatSessionFindUnique st1 sessId = Some s'" "status s' = Active" "assignedCsId s' = Some u"
       "csStatusFindUnique st u = Some c" "csStatusFindUnique st1 u = Some c'"
       "currentChats c' = currentChats c + 1" by blast
  have nw: "status s' \<noteq> Waiting" using f(2) by simp
  show ?thesis using u f accept_not_waiting[OF f(1) nw, of ws2] by blast
qed

text \<open>
  C1: for a waiting session at most one accept succeeds, and a second agent racing for
  the same session finds it active and gets \<open>ALREADY_ASSIGNED\<close> with no state change on
  its side. The code does not keep this. \<^verbatim>\<open>handleCsAcceptChat\<close> tests
  \<^verbatim>\<open>session.status !== "waiting"\<close> two awaits before \<^verbatim>\<open>assignChat\<close> issues the first of
  its three separate writes, and no transaction is opened. Starting from a store in which
  the counters agree with the sessions, the first schedule below lets Budi's and Citra's
  handlers both read Ada's session while it is waiting: both run \<^verbatim>\<open>assignChat\<close>, both send
  \<open>chat:accepted\<close>, neither sends an error, the session ends with Citra, and Budi keeps a
  \<open>currentChats\<close> of 1 with no active session. In the second schedule Budi's handler
  finishes before Citra's starts: the guard then works, Citra gets \<open>ALREADY_ASSIGNED\<close> and
  the counters agree with the sessions.
\<close>

theorem accept_race_both_accepted:
  "capacityInvariant queueStore
   \<and> (case runSchedule [0, 1, 0, 1, 0, 0, 0, 0, 1, 1, 1, 1] queueStore
           [newAcceptTask 7 1, newAcceptTask 8 1] of
      (st, tasks) \<Rightarrow>
        map taskPc tasks = [PcDone, PcDone]
        \<and> map (\<lambda>t. accepted (taskOut t)) tasks = [True, True]
        \<and> map (\<lambda>t. errorCodes (taskOut t)) tasks = [[], []]
        \<and> map (\<lambda>s. (status s, assignedCsId s)) (sessions st) = [(Active, Some 8)]
        \<and> map (\<lambda>c. (userId c, currentChats c, activeChatCount st (userId c))) (csStatuses st)
             = [(7, 1, 0), (8, 1, 1)]
        \<and> \<not> capacityInvariant st)
   \<and> (case runSchedule [0, 0, 0, 0, 0, 0, 1, 1] queueStore
           [newAcceptTask 7 1, newAcceptTask 8 1] of
      (st, tasks) \<Rightarrow>
        map (\<lambda>t. accepted (taskOut t)) tasks = [True, False]
        \<and> map (\<lambda>t. errorCodes (taskOut t)) tasks = [[], [''ALREADY_ASSIGNED'']]
        \<and> capacityInvariant st)"
  by code_simp

text \<open>
  C9, as stated: every agent whose \<open>currentChats\<close> equals \<open>maxChats\<close> is refused with
  \<open>AT_CAPACITY\<close>. The handler tests the agent's status first: Budi, busy and at his limit,
  is refused with \<open>NOT_ONLINE\<close>.
\<close>

theorem accept_at_capacity_counterexample:
  "map (\<lambda>c. (userId c, csState c, currentChats c = maxChats c)) (csStatuses busyStore) = [(7, Busy, True)]
   \<and> map (\<lambda>s. (sid s, status s)) (sessions busyStore) = [(1, Active), (4, Waiting)]
   \<and> handleCsAcceptChat busyStore (csWs 7) 4
       = (busyStore, [Send (createErrorMessage ''NOT_ONLINE'' ''Anda harus online untuk menerima chat'')])
   \<and> ''AT_CAPACITY'' \<notin> set (errorCodes (snd (handleCsAcceptChat busyStore (csWs 7) 4)))"
  by code_simp

text \<open>
  C9, amended: for an agent that has a status row, \<^verbatim>\<open>handleCsAcceptChat\<close> answers an
  online agent whose \<open>currentChats\<close> has reached \<open>maxChats\<close> with exactly the \<open>AT_CAPACITY\<close>
  error, and an agent that is not online with exactly the \<open>NOT_ONLINE\<close> error, whatever
  its load; in both cases the store (the agent's counter and the target session with it)
  is unchanged.
\<close>

theorem accept_at_capacity:
  assumes "wsUserId ws = Some u"
    and "csStatusFindUnique st u = Some c"
  shows "(csState c = Online \<and> currentChats c \<ge> maxChats c \<longrightarrow>
            handleCsAcceptChat st ws sessId
              = (st, [Send (createErrorMessage ''AT_CAPACITY'' ''Anda sudah mencapai batas chat maksimal'')]))
    \<and> (csState c \<noteq> Online \<longrightarrow>
            handleCsAcceptChat st ws sessId
              = (st, [Send (createErrorMessage ''NOT_ONLINE'' ''Anda harus online untuk menerima chat'')]))"
  using assms by (simp add: handleCsAcceptChat_def)

theorem accept_at_capacity_witness:
  "handleCsAcceptChat fullStore (csWs 7) 4
     = (fullStore, [Send (createErrorMessage ''AT_CAPACITY'' ''Anda sudah mencapai batas chat maksimal'')])
   \<and> handleCsAcceptChat busyStore (csWs 7) 4
     = (busyStore, [Send (createErrorMessage ''NOT_ONLINE'' ''Anda harus online untuk menerima chat'')])"
  using accept_at_capacity [of "csWs 7" 7 fullStore
      "\<lparr>userId = 7, csState = Online, maxChats = 1, currentChats = 1, lastActiveAt = 900\<rparr>" 4]
    accept_at_capacity [of "csWs 7" 7 busyStore
      "\<lparr>userId = 7, csState = Busy, maxChats = 1, currentChats = 1, lastActiveAt = 900\<rparr>" 4]
  by (simp add: csWs_def fullStore_def busyStore_def csStatusFindUnique_def)


section \<open>Automatic assignment\<close>

text \<open>
  C5, as stated: among the available agents the one with the fewest chats is chosen and
  ties go to the earliest \<open>lastActiveAt\<close>. The query of \<^verbatim>\<open>autoAssignChat\<close> orders by
  \<open>currentChats\<close> only and never reads \<open>lastActiveAt\<close>. Budi and Citra are both free;
  Budi is chosen when Citra has been idle longer, and he is chosen again when the two
  \<open>lastActiveAt\<close> values are exchanged, so the choice cannot follow \<open>lastActiveAt\<close>.
\<close>

theorem autoAssign_tiebreak_counterexample:
  "map (\<lambda>c. (userId c, csState c, currentChats c, maxChats c, lastActiveAt c)) (csStatuses queueStore)
      = [(7, Online, 0, 1, 900), (8, Online, 0, 1, 500)]
   \<and> map_sum id (map_option snd) (snd (fst (autoAssignChat idleConfig queueStore 1)))
      = Inr (Some (CsInfo 7 ''Budi'' None))
   \<and> map_sum id (map_option snd) (snd (fst (autoAssignChat idleConfig
        (queueStore\<lparr>csStatuses :=
           [\<lparr>userId = 7, csState = Online, maxChats = 1, currentChats = 0, lastActiveAt = 500\<rparr>,
            \<lparr>userId = 8, csState = Online, maxChats = 1, currentChats = 0, lastActiveAt = 900\<rparr>]\<rparr>) 1)))
      = Inr (Some (CsInfo 7 ''Budi'' None))"
  by code_simp


text \<open>
  C5, amended: when \<^verbatim>\<open>autoAssignChat\<close> assigns a session it assigns it to an active user
  of role cs whose status row is online with \<open>currentChats < maxChats\<close>, and no other such
  user has fewer \<open>currentChats\<close>; the returned session is active and assigned to that
  agent. Nothing is promised about which of several least-loaded agents is taken.
\<close>

theorem autoAssign_least_loaded:
  assumes "autoAssignChat cfg st sessId = ((st1, Inr (Some (sess, CsInfo a n av))), outs)"
  shows "\<exists>u c. candidate st u c \<and> uid u = a
     \<and> (\<forall>u' c'. candidate st u' c' \<longrightarrow> currentChats c \<le> currentChats c')
     \<and> status sess = Active \<and> assignedCsId sess = Some a"
proof -
  from autoAssign_selected[OF assms] obtain u c rest cs where
    h: "csWithCapacity st = (u, c) # rest" "uid u = a" "assignChat st sessId a = (st1, Inr (sess, cs))"
    by blast
  have cand: "candidate st u c"
    using h(1) csWithCapacity_member[of u c st] by simp
  have least: "currentChats c \<le> currentChats c'" if "candidate st u' c'" for u' c'
  proof -
    from that have "(u', c') \<in> set ((u, c) # rest)"
      using csWithCapacity_member[of u' c' st] h(1) by simp
    moreover have "sorted (map (\<lambda>p. currentChats (snd p)) ((u, c) # rest))"
      using csWithCapacity_sorted[of st] h(1) by simp
    ultimately show ?thesis by auto
  qed
  show ?thesis using cand h(2) least assignChat_result[OF h(3)] by blast
qed

theorem autoAssign_least_loaded_witness:
  "\<exists>sess st1 outs c7. autoAssignChat idleConfig queueStore 1 = ((st1, Inr (Some (sess, CsInfo 7 ''Budi'' None))), outs)
      \<and> status sess = Active \<and> assignedCsId sess = Some 7
      \<and> csStatusFindUnique queueStore 7 = Some c7
      \<and> currentChats c7 \<le> currentChats (csStatuses queueStore ! 1)"
proof -
  obtain st1 r outs where a: "autoAssignChat idleConfig queueStore 1 = ((st1, r), outs)"
    by (metis prod.collapse)
  have "map_sum id (map_option snd) (snd (fst (autoAssignChat idleConfig queueStore 1)))
          = Inr (Some (CsInfo 7 ''Budi'' None))"
    by code_simp
  with a obtain sess where r: "r = Inr (Some (sess, CsInfo 7 ''Budi'' None))"
    by (cases r) (auto simp: map_option_case split: option.splits)
  have c8: "candidate queueStore citra (csStatuses queueStore ! 1)"
    by (simp add: candidate_def queueStore_def citra_def budi_def csStatusFindUnique_def)
  from autoAssign_least_loaded[OF a[unfolded r]] obtain u c where
    "candidate queueStore u c" "uid u = 7" "currentChats c \<le> currentChats (csStatuses queueStore ! 1)"
    "status sess = Active" "assignedCsId sess = Some 7"
    using c8 by blast
  with a r show ?thesis by (auto simp: candidate_def)
qed


section \<open>Reconnecting\<close>





section \<open>Starting a chat\<close>






section \<open>The idle reaper\<close>

text \<open>
  C6, as stated: a reaper run at exactly \<open>last_message_at + idle_timeout\<close> abandons the
  session. \<^verbatim>\<open>checkIdleChats\<close> asks for messages strictly older than
  \<open>now - timeout\<close> (\<^verbatim>\<open>lt\<close> in the query, \<^verbatim>\<open><\<close> in the loop). Ada's only message is from
  1000, the timeout is 1800 s and the reaper reads the clock at 1801000: nothing is
  abandoned and the store is unchanged.
\<close>

theorem idle_reaper_exact_counterexample:
  "map (\<lambda>s. (sid s, status s)) (sessions (idleStore 1801000)) = [(1, Active)]
   \<and> map_option createdAt (latestMessage (idleStore 1801000) 1) = Some 1000
   \<and> fst (now (idleStore 1801000)) = 1000 + chatIdleTimeout idleConfig * 1000
   \<and> checkIdleChats idleConfig (idleStore 1801000) = (idleStore 1801000, Inr (0, []))"
  by code_simp


text \<open>
  C6, amended: let a waiting or active session have its latest message at \<open>createdAt m\<close>
  and let the reaper read the clock at \<open>t\<close>. If \<open>t\<close> is at most
  \<open>createdAt m + timeout * 1000\<close> (before that instant or exactly at it) the session row
  is unchanged after \<^verbatim>\<open>checkIdleChats\<close>; if \<open>t\<close> is strictly later, the row is abandoned
  and the session id is among the returned ids.
\<close>

theorem idle_reaper_boundary:
  assumes "fst (now st) = t"
    and "chatSessionFindUnique st i = Some s"
    and "status s = Waiting \<or> status s = Active"
    and "latestMessage st i = Some m"
  shows "(t \<le> createdAt m + chatIdleTimeout cfg * 1000 \<longrightarrow>
            chatSessionFindUnique (fst (checkIdleChats cfg st)) i = Some s)
    \<and> (createdAt m + chatIdleTimeout cfg * 1000 < t \<longrightarrow>
          (\<exists>s' ids. chatSessionFindUnique (fst (checkIdleChats cfg st)) i = Some s'
              \<and> status s' = Abandoned
              \<and> snd (checkIdleChats cfg st) = Inr (length ids, ids) \<and> i \<in> set ids))"
proof -
  obtain st0 where n: "now st = (t, st0)" using assms(1) by (cases "now st") simp
  define th where "th = t - chatIdleTimeout cfg * 1000"
  define chats where "chats = idleChats st0 th"
  have same: "sessions st0 = sessions st" "messagesTbl st0 = messagesTbl st"
    "tieOrder st0 = tieOrder st"
    using now_frame[OF n] by simp_all
  have chats: "chats = idleChats st th"
    unfolding chats_def by (rule idleChats_cong) (simp_all add: same)
  have f0: "chatSessionFindUnique st0 j = chatSessionFindUnique st j" for j
    by (simp add: chatSessionFindUnique_def same)
  have pre: "\<forall>p \<in> set chats. (case snd p of None \<Rightarrow> True | Some m \<Rightarrow> createdAt m < th)
              \<and> chatSessionFindUnique st0 (sid (fst p)) \<noteq> None"
  proof
    fix p assume pm: "p \<in> set chats"
    obtain c lm where p: "p = (c, lm)" by (cases p)
    from pm p chats have c: "c \<in> set (sessions st)"
      and old: "list_all (\<lambda>m. createdAt m < th) (filter (\<lambda>m. sessionId m = sid c) (messagesTbl st))"
      and lm: "lm = latestMessage st (sid c)"
      by (simp_all add: idleChats_member)
    have "createdAt x < th" if "lm = Some x" for x
      using latestMessage_last[of st "sid c" x] that lm old by (auto simp: list_all_iff)
    then have "(case lm of None \<Rightarrow> True | Some m \<Rightarrow> createdAt m < th)"
      by (cases lm) auto
    with session_in_set_found[OF c] p f0 show
      "(case snd p of None \<Rightarrow> True | Some m \<Rightarrow> createdAt m < th)
              \<and> chatSessionFindUnique st0 (sid (fst p)) \<noteq> None" by simp
  qed
  from abandonIdle_loop[OF pre, of "[]"] obtain st' where
    run: "abandonIdle th chats st0 [] = (st', Inr (map (\<lambda>p. sid (fst p)) chats))"
    and keep: "\<And>j. j \<notin> set (map (\<lambda>p. sid (fst p)) chats) \<Longrightarrow>
            chatSessionFindUnique st' j = chatSessionFindUnique st0 j"
    and ab: "\<And>j. j \<in> set (map (\<lambda>p. sid (fst p)) chats) \<Longrightarrow>
            (\<exists>s'. chatSessionFindUnique st' j = Some s' \<and> status s' = Abandoned)"
    by auto
  have res: "checkIdleChats cfg st
      = (st', Inr (length (map (\<lambda>p. sid (fst p)) chats), map (\<lambda>p. sid (fst p)) chats))"
    using n run by (simp add: checkIdleChats_def th_def chats_def andThen_def Let_def)
  from latestMessage_last[OF assms(4)] have
    m: "m \<in> set (messagesTbl st)" "sessionId m = i"
    and le: "\<And>m'. m' \<in> set (messagesTbl st) \<Longrightarrow> sessionId m' = i \<Longrightarrow> createdAt m' \<le> createdAt m"
    by auto
  have early: "chatSessionFindUnique st' i = Some s" if "t \<le> createdAt m + chatIdleTimeout cfg * 1000"
  proof -
    have "\<not> createdAt m < th" using that by (simp add: th_def)
    then have "\<not> list_all (\<lambda>m. createdAt m < th) (filter (\<lambda>m. sessionId m = i) (messagesTbl st))"
      using m by (auto simp: list_all_iff)
    then have "i \<notin> set (map (\<lambda>p. sid (fst p)) chats)"
      unfolding chats by (auto simp: idleChats_member)
    from keep[OF this] show ?thesis using f0 assms(2) by simp
  qed
  have late: "\<exists>s' ids. chatSessionFindUnique st' i = Some s' \<and> status s' = Abandoned
       \<and> Inr (length (map (\<lambda>p. sid (fst p)) chats), map (\<lambda>p. sid (fst p)) chats)
           = (Inr (length ids, ids) :: PrismaError + nat \<times> ident list) \<and> i \<in> set ids"
    if "createdAt m + chatIdleTimeout cfg * 1000 < t"
  proof -
    have "createdAt m < th" using that by (simp add: th_def)
    then have "list_all (\<lambda>m. createdAt m < th) (filter (\<lambda>m. sessionId m = i) (messagesTbl st))"
      using le by (fastforce simp: list_all_iff)
    moreover from find_session_in_set[OF assms(2)] have "s \<in> set (sessions st)" "sid s = i" by auto
    ultimately have "(s, latestMessage st i) \<in> set chats"
      unfolding chats using assms(3) by (simp add: idleChats_member)
    then have mem: "i \<in> set (map (\<lambda>p. sid (fst p)) chats)"
      using \<open>sid s = i\<close> by force
    from ab[OF mem] mem show ?thesis by blast
  qed
  show ?thesis unfolding res using early late by simp
qed

theorem idle_reaper_boundary_witness:
  "chatSessionFindUnique (fst (checkIdleChats idleConfig (idleStore 1801000))) 1
      = Some (hd (sessions (idleStore 1801000)))
   \<and> map_option status (chatSessionFindUnique (fst (checkIdleChats idleConfig (idleStore 1801001))) 1)
      = Some Abandoned"
proof -
  have a: "fst (now (idleStore k)) = k" for k by (simp add: now_def idleStore_def)
  have b: "chatSessionFindUnique (idleStore k) 1 = Some (hd (sessions (idleStore k)))" for k
    by (simp add: chatSessionFindUnique_def idleStore_def adaSession_def)
  have c: "status (hd (sessions (idleStore k))) = Waiting \<or> status (hd (sessions (idleStore k))) = Active" for k
    by (simp add: idleStore_def)
  have d: "latestMessage (idleStore k) 1 = Some adaWelcome" for k
    by (simp add: latestMessage_def sessionMessages_def idleStore_def adaWelcome_def)
  have e: "createdAt adaWelcome + chatIdleTimeout idleConfig * 1000 = 1801000"
    by (simp add: adaWelcome_def idleConfig_def)
  from idle_reaper_boundary [OF a b c d, of 1801000 idleConfig]
    idle_reaper_boundary [OF a b c d, of 1801001 idleConfig]
  show ?thesis unfolding e by auto
qed


section \<open>Messages of a terminal session\<close>





section \<open>Resolving a chat\<close>

text \<open>
  C3. The claim: a second \<^verbatim>\<open>resolve_chat\<close> by the same agent leaves the session and the
  agent's counter unchanged and answers with an error. \<^verbatim>\<open>resolveChat\<close> compares only
  \<open>assignedCsId\<close> with the caller and never looks at the status. Budi resolves Ada's
  active chat: the session is resolved at 2001 and his \<open>currentChats\<close> goes from 1 to 0.
  He sends the same request again: the call succeeds once more, \<open>resolvedAt\<close> moves to
  2003, \<open>currentChats\<close> drops to -1, a second "Chat has been resolved" message is
  appended, and the handler sends \<open>chat:resolved\<close> and no error.
\<close>

theorem duplicate_resolve_succeeds:
  "(case resolveChat activeStore 1 7 of
      (st1, r1) \<Rightarrow>
        map (\<lambda>s. (sid s, status s, assignedCsId s, resolvedAt s)) (sessions st1)
            = [(1, Resolved, Some 7, Some 2001)]
        \<and> map (\<lambda>c. (userId c, currentChats c)) (csStatuses st1) = [(7, 0)]
        \<and> map content (messagesTbl st1)
            = [''Chat started. Waiting for customer service...'', ''Chat has been resolved'']
        \<and> (case resolveChat st1 1 7 of
             (st2, r2) \<Rightarrow>
               map_sum id (map_option (\<lambda>s. (status s, resolvedAt s))) r2
                   = Inr (Some (Resolved, Some 2003))
               \<and> map (\<lambda>s. (sid s, status s, assignedCsId s, resolvedAt s)) (sessions st2)
                   = [(1, Resolved, Some 7, Some 2003)]
               \<and> map (\<lambda>c. (userId c, currentChats c)) (csStatuses st2) = [(7, - 1)]
               \<and> map content (messagesTbl st2)
                   = [''Chat started. Waiting for customer service...'', ''Chat has been resolved'',
                      ''Chat has been resolved''])
        \<and> (case handleCsResolveChat idleConfig st1 (csWs 7) 1 of
             (st2, outs) \<Rightarrow> errorCodes outs = [] \<and> sentEvents outs = [''chat:resolved'']))"
  by code_simp

text \<open>
  C2. The claim: after any sequence of operations every agent has
  \<open>0 \<le> currentChats \<le> maxChats\<close> and \<open>currentChats\<close> equals the number of active sessions
  assigned to the agent. It holds in the example after the accept and after the first
  resolve; the repeated resolve, which \<^verbatim>\<open>resolveChat\<close> lets through, leaves Budi with
  \<open>currentChats = -1\<close> and no active session.
\<close>

theorem capacity_invariant_broken:
  "(let (st1, outs1) = handleCsAcceptChat queueStore (csWs 7) 1;
        (st2, outs2) = handleCsResolveChat idleConfig st1 (csWs 7) 1;
        (st3, outs3) = handleCsResolveChat idleConfig st2 (csWs 7) 1
    in capacityInvariant queueStore \<and> capacityInvariant st1 \<and> capacityInvariant st2
       \<and> accepted outs1 \<and> errorCodes outs2 = [] \<and> errorCodes outs3 = []
       \<and> \<not> capacityInvariant st3
       \<and> map (\<lambda>c. (userId c, currentChats c, activeChatCount st3 (userId c))) (csStatuses st3)
            = [(7, - 1, 0), (8, 0, 0)])"
  by code_simp


section \<open>Ending a chat that has already ended\<close>

text \<open>
  C10. For a session that is already resolved or abandoned, \<^verbatim>\<open>endChat\<close> returns the stored
  session and leaves the whole store as it was: no session field changes, no system
  message is appended and no agent's \<open>currentChats\<close> is decremented. The socket handler
  \<^verbatim>\<open>handleCustomerEndChat\<close> leaves the store unchanged as well, and on the session's own
  connection it sends no \<open>system:error\<close> frame but the usual \<open>chat:ended\<close>.
\<close>

theorem endChat_terminal_noop:
  assumes "chatSessionFindUnique st sessId = Some s"
    and "isTerminal s"
  shows "endChat st sessId = (st, Inr (Some s))
    \<and> fst (handleCustomerEndChat st ws (Some sessId)) = st
    \<and> (wsSessionId ws = Some sessId \<and> wsCustomerToken ws \<noteq> None \<longrightarrow>
         errorCodes (snd (handleCustomerEndChat st ws (Some sessId))) = []
         \<and> ''chat:ended'' \<in> set (sentEvents (snd (handleCustomerEndChat st ws (Some sessId)))))"
proof -
  have e: "endChat st sessId = (st, Inr (Some s))"
    using assms by (auto simp: endChat_def isTerminal_def)
  have h1: "fst (handleCustomerEndChat st ws (Some sessId)) = st"
    by (simp add: handleCustomerEndChat_def e split: option.splits)
  have h2: "errorCodes (snd (handleCustomerEndChat st ws (Some sessId))) = []
         \<and> ''chat:ended'' \<in> set (sentEvents (snd (handleCustomerEndChat st ws (Some sessId))))"
    if "wsSessionId ws = Some sessId" "wsCustomerToken ws \<noteq> None"
  proof -
    from that obtain tok where tok: "wsCustomerToken ws = Some tok" by auto
    show ?thesis
      by (cases "getSessionByToken st tok")
        (simp_all add: handleCustomerEndChat_def e that(1) tok sentEvents_append errorCodes_append
          notifyCustomerLeft_quiet frameEvent_def split: option.splits)
  qed
  show ?thesis using e h1 h2 by blast
qed

theorem endChat_terminal_noop_witness:
  "endChat resolvedStore 1 = (resolvedStore, Inr (Some (hd (sessions resolvedStore))))
   \<and> fst (handleCustomerEndChat resolvedStore adaWs (Some 1)) = resolvedStore
   \<and> errorCodes (snd (handleCustomerEndChat resolvedStore adaWs (Some 1))) = []"
  using endChat_terminal_noop [of resolvedStore 1 "hd (sessions resolvedStore)" adaWs]
  by (simp add: resolvedStore_def adaSession_def adaWs_def chatSessionFindUnique_def isTerminal_def)

end
